theory Spec2Isabelle
  imports Main "HOL-Library.Sublist"
begin

section \<open>Symbol extraction of an assembly source file\<close>

text \<open>
  A shallow embedding of the classes \<open>SymbolFile\<close> and \<open>Symbol\<close> and of the local-label
  prefix computation of \<open>M68kCompletionItemProvider.provideCompletionItems\<close>.

  \<open>Symbol\<close> objects are mutable and shared: the arrays of a \<open>SymbolFile\<close>, the loop
  variable \<open>lastLabel\<close> and the array \<open>labelsBeforeRts\<close> hold references to them, and
  the last loop of \<open>readDocument\<close> compares references and writes through them. So the
  objects live in an explicit store, a list of \<open>Symbol\<close> records; a reference is an
  index into it, and \<open>new Symbol(...)\<close> appends a record and yields its index.
\<close>

subsection \<open>Positions and ranges of the editor\<close>

text \<open>
  \<open>Position\<close> and \<open>Range\<close> belong to the editor's API. \<open>isBeforeOrEqual\<close> orders
  positions by line, then by character; \<open>union\<close> spans from the smaller start to the
  larger end; \<open>contains\<close> holds when the other range lies between start and end.
\<close>

record Position =
  line :: nat
  character :: nat

record Range =
  start :: Position
  endPos :: Position

definition isBeforeOrEqual :: "Position \<Rightarrow> Position \<Rightarrow> bool" where
  "isBeforeOrEqual p q =
     (if line p < line q then True
      else if line q < line p then False
      else character p \<le> character q)"

definition minPos :: "Position \<Rightarrow> Position \<Rightarrow> Position" where
  "minPos p q = (if isBeforeOrEqual p q then p else q)"

definition maxPos :: "Position \<Rightarrow> Position \<Rightarrow> Position" where
  "maxPos p q = (if isBeforeOrEqual p q then q else p)"

definition union :: "Range \<Rightarrow> Range \<Rightarrow> Range" where
  "union r other =
     \<lparr> start = minPos (start r) (start other), endPos = maxPos (endPos r) (endPos other) \<rparr>"

definition contains :: "Range \<Rightarrow> Range \<Rightarrow> bool" where
  "contains r other =
     (isBeforeOrEqual (start r) (start other) \<and> isBeforeOrEqual (endPos other) (endPos r))"

subsection \<open>String and array primitives\<close>

text \<open>
  \<open>s.indexOf(t)\<close>: the first index at which \<open>t\<close> occurs in \<open>s\<close>, or \<open>-1\<close>.
\<close>

fun indexOf :: "string \<Rightarrow> string \<Rightarrow> int" where
  "indexOf [] t = (if t = [] then 0 else - 1)"
| "indexOf (c # s) t =
     (if prefix t (c # s) then 0
      else (let k = indexOf s t in if k < 0 then - 1 else k + 1))"

text \<open>
  \<open>a.indexOf(x)\<close> on an array: the first index holding \<open>x\<close> (strict equality: the same
  string, or the same object), or \<open>-1\<close>.
\<close>

fun arrayIndexOf :: "'a list \<Rightarrow> 'a \<Rightarrow> int" where
  "arrayIndexOf [] x = - 1"
| "arrayIndexOf (y # ys) x =
     (if y = x then 0
      else (let k = arrayIndexOf ys x in if k < 0 then - 1 else k + 1))"

text \<open>
  \<open>toLowerCase\<close>, on the letters \<open>A\<close> to \<open>Z\<close>; every other character is kept.
\<close>

definition lowerChar :: "char \<Rightarrow> char" where
  "lowerChar c =
     (case map_of (zip ''ABCDEFGHIJKLMNOPQRSTUVWXYZ'' ''abcdefghijklmnopqrstuvwxyz'') c of
        None \<Rightarrow> c
      | Some d \<Rightarrow> d)"

definition toLowerCase :: "string \<Rightarrow> string" where
  "toLowerCase s = map lowerChar s"

text \<open>\<open>label.replace(":", "")\<close>: a string pattern replaces its first occurrence only.\<close>

definition replaceColon :: "string \<Rightarrow> string" where
  "replaceColon s = remove1 (CHR '':'') s"

text \<open>\<open>data.replace(/"/g, '')\<close>: the global pattern removes every double quote.\<close>

definition replaceQuotes :: "string \<Rightarrow> string" where
  "replaceQuotes s = filter (\<lambda>c. c \<noteq> CHR 0x22) s"

subsection \<open>Parsed lines\<close>

text \<open>
  \<open>ASMLine\<close> is the line parser's class (module \<open>parser\<close>); \<open>readDocument\<close> builds one
  per line of the document and reads the fields below from it; \<open>provideCompletionItems\<close>
  builds one for the line of the cursor. The model takes the document as the list of its
  parsed lines. \<open>symbolFromLabelOrVariable\<close> and \<open>symbolFromData\<close> are
  the results of the methods \<open>getSymbolFromLabelOrVariable()\<close> and
  \<open>getSymbolFromData()\<close>; a component that is \<open>undefined\<close> is \<open>None\<close>.
\<close>

record ASMLine =
  label :: string
  labelRange :: Range
  mnemonic :: string
  mnemonicRange :: Range
  instruction :: string
  instructionRange :: Range
  data :: string
  dataRange :: Range
  variable :: string
  variableRange :: Range
  valueText :: string
  symbolFromLabelOrVariable :: "string option \<times> Range option"
  symbolFromData :: "(string option \<times> Range option) list"
  commentRange :: Range

subsection \<open>Symbols, the store, and the symbol file\<close>

type_synonym ref = nat

text \<open>
  The fields of class \<open>Symbol\<close>, named by their getters. \<open>getFile\<close> is the owning
  \<open>SymbolFile\<close>, identified by its uri.
\<close>

record Symbol =
  getLabel :: string
  getFile :: string
  getRange :: Range
  getValue :: "string option"
  getParent :: string

record SymbolFile =
  uri :: string
  definedSymbols :: "ref list"
  referredSymbols :: "ref list"
  variables :: "ref list"
  labels :: "ref list"
  macros :: "ref list"
  subroutines :: "string list"
  dcLabel :: "ref list"
  includeDir :: string
  includedFiles :: "ref list"

text \<open>
  The state of the first loop of \<open>readDocument\<close>: the fields of \<open>this\<close>, the store and
  the two loop variables \<open>lastLabel\<close> (\<open>null\<close> is \<open>None\<close>) and \<open>labelsBeforeRts\<close>.
\<close>

record ReadState = SymbolFile +
  heap :: "Symbol list"
  lastLabel :: "ref option"
  labelsBeforeRts :: "ref list"

subsection \<open>\<open>SymbolFile.clear\<close> and \<open>new Symbol\<close>\<close>

definition clear :: "'a SymbolFile_scheme \<Rightarrow> 'a SymbolFile_scheme" where
  "clear this =
     this\<lparr> definedSymbols := [], referredSymbols := [], variables := [], labels := [],
           macros := [], subroutines := [], dcLabel := [], includeDir := [],
           includedFiles := [] \<rparr>"

text \<open>
  \<open>new Symbol(label, this, range, value)\<close>: a fresh object, whose parent is its own
  label. The new reference is the next free index of the store.
\<close>

definition newSymbol ::
  "string \<Rightarrow> Range \<Rightarrow> string option \<Rightarrow> ReadState \<Rightarrow> ref \<times> ReadState" where
  "newSymbol lbl rng v st =
     (length (heap st),
      st\<lparr> heap := heap st @
             [\<lparr> getLabel = lbl, getFile = uri st, getRange = rng, getValue = v,
                getParent = lbl \<rparr>] \<rparr>)"

subsection \<open>The first loop of \<open>readDocument\<close>, one line at a time\<close>

text \<open>The inner loop over the results of \<open>getSymbolFromData()\<close>.\<close>

fun pushReferred :: "ReadState \<Rightarrow> (string option \<times> Range option) list \<Rightarrow> ReadState" where
  "pushReferred st [] = st"
| "pushReferred st ((Some symbol, Some rng) # results) =
     (let (s, st1) = newSymbol symbol rng None st
      in pushReferred (st1\<lparr> referredSymbols := referredSymbols st1 @ [s] \<rparr>) results)"
| "pushReferred st (_ # results) = pushReferred st results"

text \<open>Defined symbol of the line, or else the symbols its data and mnemonic refer to.\<close>

definition readSymbols :: "ReadState \<Rightarrow> ASMLine \<Rightarrow> ReadState" where
  "readSymbols st asmLine =
     (case symbolFromLabelOrVariable asmLine of
        (Some symbol, Some rng) \<Rightarrow>
          (let (s, st1) = newSymbol symbol rng None st
           in st1\<lparr> definedSymbols := definedSymbols st1 @ [s] \<rparr>)
      | _ \<Rightarrow>
          (let st1 = pushReferred st (symbolFromData asmLine)
           in if mnemonic asmLine \<noteq> []
              then (let (s, st2) = newSymbol (mnemonic asmLine) (mnemonicRange asmLine) None st1
                    in st2\<lparr> referredSymbols := referredSymbols st2 @ [s] \<rparr>)
              else st1))"

text \<open>
  The label of the line: a label, or a macro in the \<open><name> macro\<close> syntax; a line with
  no label may be a macro in the \<open>macro <name>\<close> syntax. \<open>lastLabel?.getLabel() + label\<close>
  yields the text \<open>undefined\<close> before the label when \<open>lastLabel\<close> is \<open>null\<close>.
\<close>

definition readLabel :: "ReadState \<Rightarrow> ASMLine \<Rightarrow> string \<Rightarrow> ReadState" where
  "readLabel st asmLine instruct =
     (if length (label asmLine) > 0 then
        (let lbl = replaceColon (label asmLine);
             isLocal = (indexOf lbl ''.'' = 0);
             lbl1 = (if isLocal
                     then (case lastLabel st of
                             None \<Rightarrow> ''undefined''
                           | Some g \<Rightarrow> getLabel (heap st ! g)) @ lbl
                     else lbl);
             (s, st1) = newSymbol lbl1 (labelRange asmLine) None st
         in if indexOf instruct ''macro'' = 0
            then st1\<lparr> macros := macros st1 @ [s] \<rparr>
            else (let st2 = st1\<lparr> labels := labels st1 @ [s] \<rparr>
                  in if \<not> isLocal then st2\<lparr> lastLabel := Some s \<rparr> else st2))
      else if indexOf instruct ''macro'' = 0 then
        (let (s, st1) = newSymbol (data asmLine) (dataRange asmLine) None st
         in st1\<lparr> macros := macros st1 @ [s] \<rparr>)
      else st)"

definition readVariable :: "ReadState \<Rightarrow> ASMLine \<Rightarrow> ReadState" where
  "readVariable st asmLine =
     (if length (variable asmLine) > 0 then
        (let (s, st1) = newSymbol (variable asmLine) (variableRange asmLine)
                          (Some (valueText asmLine)) st
         in st1\<lparr> variables := variables st1 @ [s] \<rparr>)
      else st)"

text \<open>The chain of tests on the lower-cased instruction.\<close>

definition readInstruction :: "ReadState \<Rightarrow> ASMLine \<Rightarrow> string \<Rightarrow> ReadState" where
  "readInstruction st asmLine instruct =
     (if indexOf instruct ''bsr'' \<ge> 0 then
        st\<lparr> subroutines := subroutines st @ [data asmLine] \<rparr>
      else if indexOf instruct ''dc'' = 0 \<or> indexOf instruct ''ds'' = 0
              \<or> indexOf instruct ''incbin'' = 0 then
        (case lastLabel st of
           None \<Rightarrow> st
         | Some g \<Rightarrow> st\<lparr> dcLabel := dcLabel st @ [g] \<rparr>)
      else if indexOf instruct ''rts'' \<ge> 0 then
        (case lastLabel st of
           None \<Rightarrow> st
         | Some g \<Rightarrow> st\<lparr> labelsBeforeRts := labelsBeforeRts st @ [g] \<rparr>)
      else if instruct = ''incdir'' then
        st\<lparr> includeDir := replaceQuotes (data asmLine) \<rparr>
      else if instruct = ''include'' then
        (let (s, st1) = newSymbol (replaceQuotes (data asmLine)) (dataRange asmLine) None st
         in st1\<lparr> includedFiles := includedFiles st1 @ [s],
                 definedSymbols := definedSymbols st1 @ [s] \<rparr>)
      else st)"

definition readLine :: "ReadState \<Rightarrow> ASMLine \<Rightarrow> ReadState" where
  "readLine st asmLine =
     (let st1 = readSymbols st asmLine;
          instruct = toLowerCase (instruction asmLine);
          st2 = readLabel st1 asmLine instruct;
          st3 = readVariable st2 asmLine
      in readInstruction st3 asmLine instruct)"

definition readLines :: "ReadState \<Rightarrow> ASMLine list \<Rightarrow> ReadState" where
  "readLines st document = foldl readLine st document"

text \<open>
  The state in which the first loop starts: \<open>this.clear()\<close>, \<open>lastLabel = null\<close>, and
  an empty \<open>labelsBeforeRts\<close>; \<open>h\<close> is the store at the time of the call.
\<close>

definition initState :: "Symbol list \<Rightarrow> SymbolFile \<Rightarrow> ReadState" where
  "initState h this = SymbolFile.extend (clear this) (ReadState.fields h None [])"

subsection \<open>The second loop of \<open>readDocument\<close>: subroutine boundaries\<close>

record SubState =
  subHeap :: "Symbol list"
  inSub :: bool
  lastParent :: "ref option"

text \<open>
  One round of \<open>for (const l of this.labels)\<close>. The two setters write through the
  references \<open>l\<close> and \<open>lastParent\<close>, in the order of the source.
\<close>

definition subStep :: "string list \<Rightarrow> ref list \<Rightarrow> SubState \<Rightarrow> ref \<Rightarrow> SubState" where
  "subStep subs beforeRts s l =
     (let s1 =
        (if arrayIndexOf subs (getLabel (subHeap s ! l)) \<ge> 0 then
           s\<lparr> inSub := True, lastParent := Some l \<rparr>
         else
           (case lastParent s of
              None \<Rightarrow> s
            | Some p \<Rightarrow>
                if inSub s then
                  (let h1 = (subHeap s)[l := (subHeap s ! l)\<lparr> getParent := getLabel (subHeap s ! p) \<rparr>];
                       rng = getRange (h1 ! p);
                       h2 = h1[p := (h1 ! p)\<lparr> getRange := union rng (getRange (h1 ! l)) \<rparr>]
                   in s\<lparr> subHeap := h2 \<rparr>)
                else s))
      in if arrayIndexOf beforeRts l \<ge> 0 then s1\<lparr> inSub := False \<rparr> else s1)"

text \<open>
  The state of the second loop after the rounds for the references \<open>ls\<close>, started on the
  state \<open>st\<close> that the first loop has left; the whole loop runs over \<open>this.labels\<close>.
\<close>

definition subLoop :: "ReadState \<Rightarrow> ref list \<Rightarrow> SubState" where
  "subLoop st ls =
     foldl (subStep (subroutines st) (labelsBeforeRts st))
       \<lparr> subHeap = heap st, inSub = False, lastParent = None \<rparr> ls"

definition inferSubroutines :: "ReadState \<Rightarrow> SubState" where
  "inferSubroutines st = subLoop st (labels st)"

text \<open>
  \<open>readDocument\<close>, from the store \<open>h\<close> and the object \<open>this\<close> to the store and the
  object after the call.
\<close>

definition readDocument :: "Symbol list \<Rightarrow> SymbolFile \<Rightarrow> ASMLine list \<Rightarrow> Symbol list \<times> SymbolFile" where
  "readDocument h this document =
     (let st = readLines (initState h this) document
      in (subHeap (inferSubroutines st), SymbolFile.truncate st))"

text \<open>The objects that an array of references holds.\<close>

definition symbolsOf :: "Symbol list \<Rightarrow> ref list \<Rightarrow> Symbol list" where
  "symbolsOf h refs = map (\<lambda>r. h ! r) refs"

subsection \<open>The tests of the first loop on a line\<close>

text \<open>
  Names for the conditions under which the loop body takes its branches:
  \<open>instruct\<close> is the lower-cased instruction; a line has a label when
  \<open>asmLine.label.length > 0\<close>; the label is local when, after \<open>replace(":", "")\<close>, it
  starts with a dot; the line is a macro definition when \<open>instruct\<close> starts with
  \<open>macro\<close>. A label line is one whose label goes to \<open>labels\<close>; a global label line is
  one that also becomes \<open>lastLabel\<close>.
\<close>

definition instruct :: "ASMLine \<Rightarrow> string" where
  "instruct asmLine = toLowerCase (instruction asmLine)"

definition hasLabel :: "ASMLine \<Rightarrow> bool" where
  "hasLabel asmLine = (length (label asmLine) > 0)"

definition isLocalLabel :: "ASMLine \<Rightarrow> bool" where
  "isLocalLabel asmLine = (indexOf (replaceColon (label asmLine)) ''.'' = 0)"

definition isMacro :: "ASMLine \<Rightarrow> bool" where
  "isMacro asmLine = (indexOf (instruct asmLine) ''macro'' = 0)"

definition isLabelLine :: "ASMLine \<Rightarrow> bool" where
  "isLabelLine asmLine = (hasLabel asmLine \<and> \<not> isMacro asmLine)"

definition isGlobalLabelLine :: "ASMLine \<Rightarrow> bool" where
  "isGlobalLabelLine asmLine = (isLabelLine asmLine \<and> \<not> isLocalLabel asmLine)"

text \<open>
  The text that the loop body stores for the label of a line, in the state \<open>st\<close> in which
  it reaches the label.
\<close>

definition labelText :: "ReadState \<Rightarrow> ASMLine \<Rightarrow> string" where
  "labelText st asmLine =
     (if isLocalLabel asmLine
      then (case lastLabel st of None \<Rightarrow> ''undefined'' | Some g \<Rightarrow> getLabel (heap st ! g))
           @ replaceColon (label asmLine)
      else replaceColon (label asmLine))"

text \<open>
  The branch of the chain of tests on the instruction that a line takes: a call
  (\<open>bsr\<close> anywhere), else a data directive (\<open>dc\<close>, \<open>ds\<close> or \<open>incbin\<close> at the
  start), else a return (\<open>rts\<close> anywhere).
\<close>

definition isCall :: "ASMLine \<Rightarrow> bool" where
  "isCall asmLine = (indexOf (instruct asmLine) ''bsr'' \<ge> 0)"

definition isDataLine :: "ASMLine \<Rightarrow> bool" where
  "isDataLine asmLine =
     (\<not> isCall asmLine \<and>
      (indexOf (instruct asmLine) ''dc'' = 0 \<or> indexOf (instruct asmLine) ''ds'' = 0
       \<or> indexOf (instruct asmLine) ''incbin'' = 0))"

definition isReturnLine :: "ASMLine \<Rightarrow> bool" where
  "isReturnLine asmLine =
     (\<not> isCall asmLine \<and> \<not> isDataLine asmLine \<and> indexOf (instruct asmLine) ''rts'' \<ge> 0)"

text \<open>
  References are never dangling: what the loop variables and the arrays of label
  references hold are labels of the file, each one a distinct object of the store.
\<close>

definition wellFormed :: "ReadState \<Rightarrow> bool" where
  "wellFormed st =
     ((\<forall>r \<in> set (labels st). r < length (heap st)) \<and> distinct (labels st) \<and>
      (case lastLabel st of None \<Rightarrow> True | Some g \<Rightarrow> g \<in> set (labels st)) \<and>
      set (labelsBeforeRts st) \<subseteq> set (labels st) \<and>
      set (dcLabel st) \<subseteq> set (labels st))"



subsection \<open>Example lines and files\<close>

text \<open>
  Parsed lines for the instances below: \<open>parsedLine n lbl instr dat\<close> is line \<open>n\<close> with
  the given label at column 0, instruction at column 8 and data at column 16, and with no
  comment.
\<close>

definition rangeAt :: "nat \<Rightarrow> nat \<Rightarrow> nat \<Rightarrow> Range" where
  "rangeAt n a b =
     \<lparr> start = \<lparr> line = n, character = a \<rparr>, endPos = \<lparr> line = n, character = b \<rparr> \<rparr>"

definition parsedLine :: "nat \<Rightarrow> string \<Rightarrow> string \<Rightarrow> string \<Rightarrow> ASMLine" where
  "parsedLine n lbl instr dat =
     \<lparr> label = lbl, labelRange = rangeAt n 0 (length lbl),
       mnemonic = instr, mnemonicRange = rangeAt n 8 (8 + length instr),
       instruction = instr, instructionRange = rangeAt n 8 (8 + length instr),
       data = dat, dataRange = rangeAt n 16 (16 + length dat),
       variable = [], variableRange = rangeAt n 0 0, valueText = [],
       symbolFromLabelOrVariable =
         (if lbl = [] then (None, None) else (Some lbl, Some (rangeAt n 0 (length lbl)))),
       symbolFromData = [], commentRange = rangeAt n 0 0 \<rparr>"

definition exampleFile :: SymbolFile where
  "exampleFile =
     \<lparr> uri = ''main.s'', definedSymbols = [], referredSymbols = [], variables = [],
       labels = [], macros = [], subroutines = [], dcLabel = [], includeDir = [],
       includedFiles = [] \<rparr>"

definition globalLine :: ASMLine where
  "globalLine = parsedLine 0 ''FOO:'' ''move'' ''d0,d1''"

definition localLine :: ASMLine where
  "localLine = parsedLine 1 ''.bar'' ''nop'' []"

definition macroLine :: ASMLine where
  "macroLine = parsedLine 1 ''PUSH'' ''macro'' []"

definition macroDataLine :: ASMLine where
  "macroDataLine = parsedLine 1 [] ''MACRO'' ''POP''"

definition dataLine :: ASMLine where
  "dataLine = parsedLine 2 [] ''dc.b'' ''1''"




text \<open>Lines and documents with calls, labels and returns.\<close>

definition callP :: ASMLine where
  "callP = parsedLine 0 [] ''bsr'' ''P''"

definition labelP :: ASMLine where
  "labelP = parsedLine 1 ''P:'' ''moveq'' ''#0,d0''"

definition callQ :: ASMLine where
  "callQ = parsedLine 2 [] ''bsr.w'' ''Q''"

definition labelQ :: ASMLine where
  "labelQ = parsedLine 3 ''Q:'' [] []"

definition labelC :: ASMLine where
  "labelC = parsedLine 4 ''c:'' [] []"

definition localC :: ASMLine where
  "localC = parsedLine 4 ''.c'' [] []"

definition rtsLine :: ASMLine where
  "rtsLine = parsedLine 5 [] ''rts'' []"

definition labelDone :: ASMLine where
  "labelDone = parsedLine 5 ''done:'' ''rts'' []"

text \<open>A call of \<open>Q\<close> and the label \<open>Q\<close> inside the subroutine \<open>P\<close>.\<close>

definition nestedDoc :: "ASMLine list" where
  "nestedDoc = [callP, labelP, callQ, labelQ, labelC, rtsLine]"

text \<open>Two call targets in a row before the label of the return.\<close>

definition twoTargetsDoc :: "ASMLine list" where
  "twoTargetsDoc = [callP, callQ, labelP, labelQ, labelDone]"

text \<open>A subroutine with a local label and a labelled return.\<close>

definition subDoc :: "ASMLine list" where
  "subDoc = [callP, labelP, localC, labelDone]"

text \<open>A subroutine whose return follows its own label, and a label after it.\<close>

definition shortDoc :: "ASMLine list" where
  "shortDoc = [callP, labelP, localC, rtsLine, labelC]"








subsection \<open>Completion of local labels\<close>










subsection \<open>Moving references behind a store\<close>

text \<open>
  The state that has the same objects behind the store \<open>h\<close>: every reference moves up
  by the length of \<open>h\<close>. The loops do not depend on where their objects lie.
\<close>

definition relocate :: "Symbol list \<Rightarrow> ReadState \<Rightarrow> ReadState" where
  "relocate h st =
     st\<lparr> definedSymbols := map ((+) (length h)) (definedSymbols st),
         referredSymbols := map ((+) (length h)) (referredSymbols st),
         variables := map ((+) (length h)) (variables st),
         labels := map ((+) (length h)) (labels st),
         macros := map ((+) (length h)) (macros st),
         dcLabel := map ((+) (length h)) (dcLabel st),
         includedFiles := map ((+) (length h)) (includedFiles st),
         heap := h @ heap st,
         lastLabel := map_option ((+) (length h)) (lastLabel st),
         labelsBeforeRts := map ((+) (length h)) (labelsBeforeRts st) \<rparr>"

definition relocateSub :: "Symbol list \<Rightarrow> SubState \<Rightarrow> SubState" where
  "relocateSub h s =
     s\<lparr> subHeap := h @ subHeap s, lastParent := map_option ((+) (length h)) (lastParent s) \<rparr>"

section \<open>Properties of the first loop\<close>

lemma newSymbol_simps:
  "fst (newSymbol lbl rng v st) = length (heap st)"
  "heap (snd (newSymbol lbl rng v st)) = heap st @ [\<lparr> getLabel = lbl, getFile = uri st, getRange = rng, getValue = v, getParent = lbl \<rparr>]"
  by (simp_all add: newSymbol_def)

lemma pushReferred_keeps:
  "labels (pushReferred st rs) = labels st"
  "macros (pushReferred st rs) = macros st"
  "variables (pushReferred st rs) = variables st"
  "subroutines (pushReferred st rs) = subroutines st"
  "dcLabel (pushReferred st rs) = dcLabel st"
  "includeDir (pushReferred st rs) = includeDir st"
  "includedFiles (pushReferred st rs) = includedFiles st"
  "definedSymbols (pushReferred st rs) = definedSymbols st"
  "lastLabel (pushReferred st rs) = lastLabel st"
  "labelsBeforeRts (pushReferred st rs) = labelsBeforeRts st"
  "uri (pushReferred st rs) = uri st"
  by (induction st rs rule: pushReferred.induct; simp add: newSymbol_def)+

lemma pushReferred_heap: "prefix (heap st) (heap (pushReferred st rs))"
  by (induction st rs rule: pushReferred.induct) (auto simp: newSymbol_def dest: append_prefixD)

lemma readSymbols_keeps:
  "labels (readSymbols st l) = labels st"
  "macros (readSymbols st l) = macros st"
  "variables (readSymbols st l) = variables st"
  "subroutines (readSymbols st l) = subroutines st"
  "dcLabel (readSymbols st l) = dcLabel st"
  "includeDir (readSymbols st l) = includeDir st"
  "includedFiles (readSymbols st l) = includedFiles st"
  "lastLabel (readSymbols st l) = lastLabel st"
  "labelsBeforeRts (readSymbols st l) = labelsBeforeRts st"
  "uri (readSymbols st l) = uri st"
  by (simp_all add: readSymbols_def newSymbol_def pushReferred_keeps Let_def split: prod.splits option.splits)

lemma readSymbols_heap: "prefix (heap st) (heap (readSymbols st l))"
  using pushReferred_heap [of st "symbolFromData l"]
  by (auto simp: readSymbols_def newSymbol_def Let_def split: prod.splits option.splits dest: prefix_order.trans)


lemma readLabel_keeps:
  "variables (readLabel st l i) = variables st"
  "subroutines (readLabel st l i) = subroutines st"
  "dcLabel (readLabel st l i) = dcLabel st"
  "includeDir (readLabel st l i) = includeDir st"
  "includedFiles (readLabel st l i) = includedFiles st"
  "definedSymbols (readLabel st l i) = definedSymbols st"
  "referredSymbols (readLabel st l i) = referredSymbols st"
  "labelsBeforeRts (readLabel st l i) = labelsBeforeRts st"
  "uri (readLabel st l i) = uri st"
  by (simp_all add: readLabel_def newSymbol_def Let_def)

lemma readLabel_heap: "prefix (heap st) (heap (readLabel st l i))"
  by (simp add: readLabel_def newSymbol_def Let_def)

lemma readVariable_keeps:
  "labels (readVariable st l) = labels st"
  "macros (readVariable st l) = macros st"
  "subroutines (readVariable st l) = subroutines st"
  "dcLabel (readVariable st l) = dcLabel st"
  "includeDir (readVariable st l) = includeDir st"
  "includedFiles (readVariable st l) = includedFiles st"
  "definedSymbols (readVariable st l) = definedSymbols st"
  "referredSymbols (readVariable st l) = referredSymbols st"
  "lastLabel (readVariable st l) = lastLabel st"
  "labelsBeforeRts (readVariable st l) = labelsBeforeRts st"
  "uri (readVariable st l) = uri st"
  by (simp_all add: readVariable_def newSymbol_def Let_def)

lemma readVariable_heap: "prefix (heap st) (heap (readVariable st l))"
  by (simp add: readVariable_def newSymbol_def Let_def)

lemma readInstruction_keeps:
  "labels (readInstruction st l i) = labels st"
  "macros (readInstruction st l i) = macros st"
  "variables (readInstruction st l i) = variables st"
  "referredSymbols (readInstruction st l i) = referredSymbols st"
  "lastLabel (readInstruction st l i) = lastLabel st"
  "uri (readInstruction st l i) = uri st"
  by (simp_all add: readInstruction_def newSymbol_def Let_def split: option.splits)

lemma readInstruction_heap: "prefix (heap st) (heap (readInstruction st l i))"
  by (simp add: readInstruction_def newSymbol_def Let_def split: option.splits)

text \<open>The effect of one line on the labels, on \<open>lastLabel\<close> and on the store.\<close>

lemma readLine_heap: "prefix (heap st) (heap (readLine st l))"
  unfolding readLine_def Let_def
  by (meson readSymbols_heap readLabel_heap readVariable_heap readInstruction_heap prefix_order.trans)

lemma readLine_uri: "uri (readLine st l) = uri st"
  by (simp add: readLine_def Let_def readInstruction_keeps readVariable_keeps readLabel_keeps readSymbols_keeps)

lemma readLabel_labels:
  "labels (readLabel st l (instruct l)) =
     (if isLabelLine l then labels st @ [length (heap st)] else labels st)"
  by (simp add: readLabel_def newSymbol_def Let_def isLabelLine_def hasLabel_def isMacro_def)

lemma readLabel_lastLabel:
  "lastLabel (readLabel st l (instruct l)) =
     (if isGlobalLabelLine l then Some (length (heap st)) else lastLabel st)"
  by (simp add: readLabel_def newSymbol_def Let_def isGlobalLabelLine_def isLabelLine_def
      hasLabel_def isMacro_def isLocalLabel_def)

lemma readLabel_new:
  assumes "hasLabel l"
  shows "heap (readLabel st l (instruct l)) =
     heap st @ [\<lparr> getLabel = labelText st l, getFile = uri st, getRange = labelRange l,
                  getValue = None, getParent = labelText st l \<rparr>]"
  using assms
  by (simp add: readLabel_def newSymbol_def Let_def hasLabel_def labelText_def isLocalLabel_def)

lemma readLine_labels:
  "labels (readLine st l) =
     (if isLabelLine l then labels st @ [length (heap (readSymbols st l))] else labels st)"
  by (simp add: readLine_def Let_def readInstruction_keeps readVariable_keeps
      readLabel_labels [unfolded instruct_def] readSymbols_keeps)

lemma readLine_lastLabel:
  "lastLabel (readLine st l) =
     (if isGlobalLabelLine l then Some (length (heap (readSymbols st l))) else lastLabel st)"
  by (simp add: readLine_def Let_def readInstruction_keeps readVariable_keeps
      readLabel_lastLabel [unfolded instruct_def] readSymbols_keeps)

lemma prefix_nth: "prefix xs ys \<Longrightarrow> i < length xs \<Longrightarrow> ys ! i = xs ! i"
  by (auto simp: prefix_def nth_append)

lemma readInstruction_dcLabel:
  "dcLabel (readInstruction st l (instruct l)) =
     (if isDataLine l then (case lastLabel st of None \<Rightarrow> dcLabel st | Some g \<Rightarrow> dcLabel st @ [g])
      else dcLabel st)"
  by (simp add: readInstruction_def newSymbol_def Let_def isDataLine_def isCall_def split: option.splits)

lemma readInstruction_labelsBeforeRts:
  "labelsBeforeRts (readInstruction st l (instruct l)) =
     (if isReturnLine l
      then (case lastLabel st of None \<Rightarrow> labelsBeforeRts st | Some g \<Rightarrow> labelsBeforeRts st @ [g])
      else labelsBeforeRts st)"
  by (simp add: readInstruction_def newSymbol_def Let_def isReturnLine_def isDataLine_def isCall_def
      split: option.splits)

lemma readInstruction_subroutines:
  "subroutines (readInstruction st l (instruct l)) =
     (if isCall l then subroutines st @ [data l] else subroutines st)"
  by (simp add: readInstruction_def newSymbol_def Let_def isCall_def split: option.splits)

lemma readLine_dcLabel:
  "dcLabel (readLine st l) =
     (if isDataLine l
      then (case lastLabel (readLine st l) of None \<Rightarrow> dcLabel st | Some g \<Rightarrow> dcLabel st @ [g])
      else dcLabel st)"
  by (simp add: readLine_def Let_def readInstruction_dcLabel [unfolded instruct_def]
      readInstruction_keeps readVariable_keeps readLabel_keeps readSymbols_keeps
      split: option.splits)

lemma readLine_labelsBeforeRts:
  "labelsBeforeRts (readLine st l) =
     (if isReturnLine l
      then (case lastLabel (readLine st l) of
              None \<Rightarrow> labelsBeforeRts st
            | Some g \<Rightarrow> labelsBeforeRts st @ [g])
      else labelsBeforeRts st)"
  by (simp add: readLine_def Let_def readInstruction_labelsBeforeRts [unfolded instruct_def]
      readInstruction_keeps readVariable_keeps readLabel_keeps readSymbols_keeps
      split: option.splits)

lemma readLine_subroutines:
  "subroutines (readLine st l) =
     (if isCall l then subroutines st @ [data l] else subroutines st)"
  by (simp add: readLine_def Let_def readInstruction_subroutines [unfolded instruct_def]
      readVariable_keeps readLabel_keeps readSymbols_keeps)

lemma readLine_heap_length:
  "length (heap st) \<le> length (heap (readSymbols st l))"
  "isLabelLine l \<Longrightarrow> length (heap (readSymbols st l)) < length (heap (readLine st l))"
proof -
  show "length (heap st) \<le> length (heap (readSymbols st l))"
    using readSymbols_heap [of st l] by (simp add: prefix_length_le)
  assume "isLabelLine l"
  then have "length (heap (readLabel (readSymbols st l) l (instruct l))) = Suc (length (heap (readSymbols st l)))"
    by (simp add: readLabel_new isLabelLine_def)
  moreover have "prefix (heap (readLabel (readSymbols st l) l (instruct l))) (heap (readLine st l))"
    unfolding readLine_def Let_def instruct_def
    by (meson readVariable_heap readInstruction_heap prefix_order.trans)
  ultimately show "length (heap (readSymbols st l)) < length (heap (readLine st l))"
    using prefix_length_le by fastforce
qed

lemma wellFormed_readLine:
  assumes "wellFormed st"
  shows "wellFormed (readLine st l)"
proof -
  let ?r = "length (heap (readSymbols st l))"
  have old: "\<forall>r \<in> set (labels st). r < length (heap st)" and d: "distinct (labels st)"
    using assms by (simp_all add: wellFormed_def)
  have le: "length (heap st) \<le> length (heap (readLine st l))"
    using readLine_heap [of st l] by (simp add: prefix_length_le)
  have fresh: "?r \<notin> set (labels st)"
    using old readLine_heap_length(1) [of st l] by fastforce
  show ?thesis
  proof (cases "isLabelLine l")
    case True
    then show ?thesis
      using assms old d le fresh readLine_heap_length(2) [of l st]
      by (auto simp: wellFormed_def readLine_labels readLine_lastLabel readLine_dcLabel
          readLine_labelsBeforeRts split: option.splits)
  next
    case False
    then have "\<not> isGlobalLabelLine l" by (simp add: isGlobalLabelLine_def)
    with False show ?thesis
      using assms old d le
      by (auto simp: wellFormed_def readLine_labels readLine_lastLabel readLine_dcLabel
          readLine_labelsBeforeRts split: option.splits)
  qed
qed

lemma readLines_snoc: "readLines st (ls @ [l]) = readLine (readLines st ls) l"
  by (simp add: readLines_def)

lemma readLines_append: "readLines st (xs @ ys) = readLines (readLines st xs) ys"
  by (simp add: readLines_def)

lemma readLines_Cons: "readLines st (l # ls) = readLines (readLine st l) ls"
  by (simp add: readLines_def)

lemma readLines_Nil: "readLines st [] = st"
  by (simp add: readLines_def)

lemma wellFormed_readLines: "wellFormed st \<Longrightarrow> wellFormed (readLines st ls)"
  by (induction ls arbitrary: st) (simp_all add: readLines_Nil readLines_Cons wellFormed_readLine)

lemma initState_simps:
  "heap (initState h f) = h" "uri (initState h f) = uri f" "labels (initState h f) = []"
  "macros (initState h f) = []" "variables (initState h f) = []" "dcLabel (initState h f) = []"
  "subroutines (initState h f) = []" "includeDir (initState h f) = []"
  "includedFiles (initState h f) = []" "definedSymbols (initState h f) = []"
  "referredSymbols (initState h f) = []"
  "lastLabel (initState h f) = None" "labelsBeforeRts (initState h f) = []"
  by (simp_all add: initState_def clear_def SymbolFile.defs ReadState.defs)

lemma wellFormed_initState: "wellFormed (initState h f)"
  by (simp add: wellFormed_def initState_simps)

lemma wellFormed_reach: "wellFormed (readLines (initState h f) ls)"
  by (simp add: wellFormed_readLines wellFormed_initState)

lemma readLines_heap: "prefix (heap st) (heap (readLines st ls))"
proof (induction ls arbitrary: st)
  case Nil show ?case by (simp add: readLines_Nil)
next
  case (Cons l ls)
  show ?case using readLine_heap [of st l] Cons [of "readLine st l"]
    by (simp add: readLines_Cons)
qed

lemma readLines_uri: "uri (readLines st ls) = uri st"
  by (induction ls arbitrary: st) (simp_all add: readLines_Nil readLines_Cons readLine_uri)

lemma readLines_labels_prefix: "prefix (labels st) (labels (readLines st ls))"
proof (induction ls arbitrary: st)
  case Nil show ?case by (simp add: readLines_Nil)
next
  case (Cons l ls)
  have "prefix (labels st) (labels (readLine st l))" by (simp add: readLine_labels)
  then show ?case using Cons [of "readLine st l"] by (simp add: readLines_Cons)
qed

lemma readLines_labels_length:
  "length (labels (readLines st ls)) = length (labels st) + length (filter isLabelLine ls)"
  by (induction ls arbitrary: st) (simp_all add: readLines_Nil readLines_Cons readLine_labels)

lemma readLines_lastLabel_keep:
  "\<forall>m \<in> set ls. \<not> isGlobalLabelLine m \<Longrightarrow> lastLabel (readLines st ls) = lastLabel st"
  by (induction ls arbitrary: st) (simp_all add: readLines_Nil readLines_Cons readLine_lastLabel)

lemmas example_defs = parsedLine_def rangeAt_def exampleFile_def
lemmas line_test_defs = hasLabel_def isMacro_def isLocalLabel_def isLabelLine_def
  isGlobalLabelLine_def isCall_def isDataLine_def isReturnLine_def instruct_def
  toLowerCase_def lowerChar_def replaceColon_def
lemmas run_defs = readLines_def readLine_def initState_def clear_def SymbolFile.defs
  ReadState.defs readSymbols_def readLabel_def readVariable_def readInstruction_def
  newSymbol_def toLowerCase_def lowerChar_def replaceColon_def replaceQuotes_def Let_def

lemma readLabel_macros:
  "macros (readLabel st l (instruct l)) =
     (if isMacro l then macros st @ [length (heap st)] else macros st)"
  by (simp add: readLabel_def newSymbol_def Let_def isMacro_def)

lemma readLine_macros:
  "macros (readLine st l) =
     (if isMacro l then macros st @ [length (heap (readSymbols st l))] else macros st)"
  by (simp add: readLine_def Let_def readInstruction_keeps readVariable_keeps
      readLabel_macros [unfolded instruct_def] readSymbols_keeps)

lemma readLabel_new_macro:
  assumes "\<not> hasLabel l" "isMacro l"
  shows "heap (readLabel st l (instruct l)) =
     heap st @ [\<lparr> getLabel = data l, getFile = uri st, getRange = dataRange l,
                  getValue = None, getParent = data l \<rparr>]"
  using assms by (simp add: readLabel_def newSymbol_def Let_def hasLabel_def isMacro_def)

lemma readLine_after_label:
  "prefix (heap (readLabel (readSymbols st l) l (instruct l))) (heap (readLine st l))"
  unfolding readLine_def Let_def instruct_def
  by (meson readVariable_heap readInstruction_heap prefix_order.trans)

lemma labelText_readSymbols:
  assumes "wellFormed st"
  shows "labelText (readSymbols st l) l = labelText st l"
proof (cases "lastLabel st")
  case None
  then show ?thesis by (simp add: labelText_def readSymbols_keeps)
next
  case (Some g)
  with assms have "g < length (heap st)" by (auto simp: wellFormed_def)
  then have "heap (readSymbols st l) ! g = heap st ! g"
    using readSymbols_heap [of st l] by (simp add: prefix_nth)
  with Some show ?thesis by (simp add: labelText_def readSymbols_keeps)
qed

text \<open>The object created for the label of a line, in the store after the line.\<close>

lemma readLine_label_symbol:
  assumes "wellFormed st" "hasLabel l"
  shows "heap (readLine st l) ! length (heap (readSymbols st l)) =
     \<lparr> getLabel = labelText st l, getFile = uri st, getRange = labelRange l,
       getValue = None, getParent = labelText st l \<rparr>"
proof -
  let ?st1 = "readSymbols st l"
  have "heap (readLabel ?st1 l (instruct l)) ! length (heap ?st1) =
     \<lparr> getLabel = labelText ?st1 l, getFile = uri ?st1, getRange = labelRange l,
       getValue = None, getParent = labelText ?st1 l \<rparr>"
    by (simp add: readLabel_new [OF assms(2)])
  moreover have "length (heap ?st1) < length (heap (readLabel ?st1 l (instruct l)))"
    by (simp add: readLabel_new [OF assms(2)])
  ultimately show ?thesis
    using prefix_nth [OF readLine_after_label, of "length (heap ?st1)" st l]
    by (simp add: labelText_readSymbols [OF assms(1)] readSymbols_keeps)
qed

lemma readLine_macro_symbol:
  assumes "\<not> hasLabel l" "isMacro l"
  shows "heap (readLine st l) ! length (heap (readSymbols st l)) =
     \<lparr> getLabel = data l, getFile = uri st, getRange = dataRange l,
       getValue = None, getParent = data l \<rparr>"
proof -
  let ?st1 = "readSymbols st l"
  have "heap (readLabel ?st1 l (instruct l)) = heap ?st1 @
     [\<lparr> getLabel = data l, getFile = uri ?st1, getRange = dataRange l,
        getValue = None, getParent = data l \<rparr>]"
    by (rule readLabel_new_macro [OF assms])
  then show ?thesis
    using prefix_nth [OF readLine_after_label, of "length (heap ?st1)" st l]
    by (simp add: readSymbols_keeps)
qed

lemma readLine_fresh:
  assumes "hasLabel l \<or> isMacro l"
  shows "length (heap st) \<le> length (heap (readSymbols st l))"
    and "length (heap (readSymbols st l)) < length (heap (readLine st l))"
proof -
  let ?st1 = "readSymbols st l"
  show "length (heap st) \<le> length (heap ?st1)" by (rule readLine_heap_length(1))
  have "length (heap (readLabel ?st1 l (instruct l))) = Suc (length (heap ?st1))"
    using assms readLabel_new [of l ?st1] readLabel_new_macro [of l ?st1]
    by (cases "hasLabel l") simp_all
  then show "length (heap ?st1) < length (heap (readLine st l))"
    using prefix_length_le [OF readLine_after_label, of st l] by simp
qed

text \<open>
  Claim C8. Of a line reached in any document: a labelled line whose instruction is a macro
  keyword puts the new symbol into \<open>macros\<close>, and leaves \<open>labels\<close> and \<open>lastLabel\<close>
  as they are; a labelled line with another instruction puts it into \<open>labels\<close>, leaves
  \<open>macros\<close>, and makes it \<open>lastLabel\<close> exactly when the label is not local; a line with
  no label and a macro keyword puts a symbol for its data field into \<open>macros\<close>.
\<close>

theorem C8_label_or_macro:
  "let st = readLines (initState h f) pre; st' = readLine st l in
     (hasLabel l \<and> isMacro l \<longrightarrow>
        (\<exists>s. macros st' = macros st @ [s] \<and> length (heap st) \<le> s \<and> s < length (heap st') \<and>
             heap st' ! s = \<lparr> getLabel = labelText st l, getFile = uri f,
                              getRange = labelRange l, getValue = None,
                              getParent = labelText st l \<rparr>) \<and>
        labels st' = labels st \<and> lastLabel st' = lastLabel st) \<and>
     (hasLabel l \<and> \<not> isMacro l \<longrightarrow>
        (\<exists>s. labels st' = labels st @ [s] \<and> length (heap st) \<le> s \<and> s < length (heap st') \<and>
             heap st' ! s = \<lparr> getLabel = labelText st l, getFile = uri f,
                              getRange = labelRange l, getValue = None,
                              getParent = labelText st l \<rparr> \<and>
             lastLabel st' = (if isLocalLabel l then lastLabel st else Some s)) \<and>
        macros st' = macros st) \<and>
     (\<not> hasLabel l \<and> isMacro l \<longrightarrow>
        (\<exists>s. macros st' = macros st @ [s] \<and> length (heap st) \<le> s \<and> s < length (heap st') \<and>
             heap st' ! s = \<lparr> getLabel = data l, getFile = uri f, getRange = dataRange l,
                              getValue = None, getParent = data l \<rparr>) \<and>
        labels st' = labels st \<and> lastLabel st' = lastLabel st)"
proof -
  define st where "st = readLines (initState h f) pre"
  have wf: "wellFormed st" and u: "uri st = uri f"
    by (simp_all add: st_def wellFormed_reach readLines_uri initState_simps)
  let ?s = "length (heap (readSymbols st l))"
  have a: "hasLabel l \<and> isMacro l \<longrightarrow>
        (\<exists>s. macros (readLine st l) = macros st @ [s] \<and> length (heap st) \<le> s \<and>
             s < length (heap (readLine st l)) \<and>
             heap (readLine st l) ! s = \<lparr> getLabel = labelText st l, getFile = uri f,
                              getRange = labelRange l, getValue = None,
                              getParent = labelText st l \<rparr>) \<and>
        labels (readLine st l) = labels st \<and> lastLabel (readLine st l) = lastLabel st"
  proof
    assume h: "hasLabel l \<and> isMacro l"
    then have "macros (readLine st l) = macros st @ [?s]" by (simp add: readLine_macros)
    moreover have "length (heap st) \<le> ?s" "?s < length (heap (readLine st l))"
      using h readLine_fresh [of l st] by simp_all
    moreover have "heap (readLine st l) ! ?s = \<lparr> getLabel = labelText st l, getFile = uri f,
        getRange = labelRange l, getValue = None, getParent = labelText st l \<rparr>"
      using h readLine_label_symbol [OF wf, of l] by (simp add: u)
    moreover have "labels (readLine st l) = labels st" "lastLabel (readLine st l) = lastLabel st"
      using h by (simp_all add: readLine_labels readLine_lastLabel isLabelLine_def isGlobalLabelLine_def)
    ultimately show "(\<exists>s. macros (readLine st l) = macros st @ [s] \<and> length (heap st) \<le> s \<and>
             s < length (heap (readLine st l)) \<and>
             heap (readLine st l) ! s = \<lparr> getLabel = labelText st l, getFile = uri f,
                              getRange = labelRange l, getValue = None,
                              getParent = labelText st l \<rparr>) \<and>
        labels (readLine st l) = labels st \<and> lastLabel (readLine st l) = lastLabel st"
      by blast
  qed
  have b: "hasLabel l \<and> \<not> isMacro l \<longrightarrow>
        (\<exists>s. labels (readLine st l) = labels st @ [s] \<and> length (heap st) \<le> s \<and>
             s < length (heap (readLine st l)) \<and>
             heap (readLine st l) ! s = \<lparr> getLabel = labelText st l, getFile = uri f,
                              getRange = labelRange l, getValue = None,
                              getParent = labelText st l \<rparr> \<and>
             lastLabel (readLine st l) = (if isLocalLabel l then lastLabel st else Some s)) \<and>
        macros (readLine st l) = macros st"
  proof
    assume h: "hasLabel l \<and> \<not> isMacro l"
    then have "labels (readLine st l) = labels st @ [?s]"
      by (simp add: readLine_labels isLabelLine_def)
    moreover have "length (heap st) \<le> ?s" "?s < length (heap (readLine st l))"
      using h readLine_fresh [of l st] by simp_all
    moreover have "heap (readLine st l) ! ?s = \<lparr> getLabel = labelText st l, getFile = uri f,
        getRange = labelRange l, getValue = None, getParent = labelText st l \<rparr>"
      using h readLine_label_symbol [OF wf, of l] by (simp add: u)
    moreover have "lastLabel (readLine st l) = (if isLocalLabel l then lastLabel st else Some ?s)"
      using h by (simp add: readLine_lastLabel isLabelLine_def isGlobalLabelLine_def)
    moreover have "macros (readLine st l) = macros st"
      using h by (simp add: readLine_macros)
    ultimately show "(\<exists>s. labels (readLine st l) = labels st @ [s] \<and> length (heap st) \<le> s \<and>
             s < length (heap (readLine st l)) \<and>
             heap (readLine st l) ! s = \<lparr> getLabel = labelText st l, getFile = uri f,
                              getRange = labelRange l, getValue = None,
                              getParent = labelText st l \<rparr> \<and>
             lastLabel (readLine st l) = (if isLocalLabel l then lastLabel st else Some s)) \<and>
        macros (readLine st l) = macros st"
      by blast
  qed
  have c: "\<not> hasLabel l \<and> isMacro l \<longrightarrow>
        (\<exists>s. macros (readLine st l) = macros st @ [s] \<and> length (heap st) \<le> s \<and>
             s < length (heap (readLine st l)) \<and>
             heap (readLine st l) ! s = \<lparr> getLabel = data l, getFile = uri f,
                getRange = dataRange l, getValue = None, getParent = data l \<rparr>) \<and>
        labels (readLine st l) = labels st \<and> lastLabel (readLine st l) = lastLabel st"
  proof
    assume h: "\<not> hasLabel l \<and> isMacro l"
    then have "macros (readLine st l) = macros st @ [?s]" by (simp add: readLine_macros)
    moreover have "length (heap st) \<le> ?s" "?s < length (heap (readLine st l))"
      using h readLine_fresh [of l st] by simp_all
    moreover have "heap (readLine st l) ! ?s = \<lparr> getLabel = data l, getFile = uri f,
        getRange = dataRange l, getValue = None, getParent = data l \<rparr>"
      using h readLine_macro_symbol [of l st] by (simp add: u)
    moreover have "labels (readLine st l) = labels st" "lastLabel (readLine st l) = lastLabel st"
      using h by (simp_all add: readLine_labels readLine_lastLabel isLabelLine_def isGlobalLabelLine_def)
    ultimately show "(\<exists>s. macros (readLine st l) = macros st @ [s] \<and> length (heap st) \<le> s \<and>
             s < length (heap (readLine st l)) \<and>
             heap (readLine st l) ! s = \<lparr> getLabel = data l, getFile = uri f,
                getRange = dataRange l, getValue = None, getParent = data l \<rparr>) \<and>
        labels (readLine st l) = labels st \<and> lastLabel (readLine st l) = lastLabel st"
      by blast
  qed
  from a b c show ?thesis unfolding Let_def st_def [symmetric] by blast
qed


lemmas example_lines = globalLine_def localLine_def macroLine_def macroDataLine_def

theorem C8_label_or_macro_witness:
  "(hasLabel macroLine \<and> isMacro macroLine \<and>
    (\<exists>s. macros (readLine (readLines (initState [] exampleFile) [globalLine]) macroLine) = [s] \<and>
         2 \<le> s \<and>
         getLabel (heap (readLine (readLines (initState [] exampleFile) [globalLine]) macroLine) ! s)
           = ''PUSH'') \<and>
    labels (readLine (readLines (initState [] exampleFile) [globalLine]) macroLine) = [1] \<and>
    lastLabel (readLine (readLines (initState [] exampleFile) [globalLine]) macroLine) = Some 1) \<and>
   (hasLabel localLine \<and> \<not> isMacro localLine \<and> isLocalLabel localLine \<and>
    (\<exists>s. labels (readLine (readLines (initState [] exampleFile) [globalLine]) localLine) = [1, s] \<and>
         2 \<le> s \<and>
         getLabel (heap (readLine (readLines (initState [] exampleFile) [globalLine]) localLine) ! s)
           = ''FOO.bar'') \<and>
    macros (readLine (readLines (initState [] exampleFile) [globalLine]) localLine) = [] \<and>
    lastLabel (readLine (readLines (initState [] exampleFile) [globalLine]) localLine) = Some 1) \<and>
   (\<not> hasLabel macroDataLine \<and> isMacro macroDataLine \<and>
    (\<exists>s. macros (readLine (readLines (initState [] exampleFile) [globalLine]) macroDataLine) = [s] \<and>
         2 \<le> s \<and>
         getLabel (heap (readLine (readLines (initState [] exampleFile) [globalLine]) macroDataLine) ! s)
           = ''POP'') \<and>
    labels (readLine (readLines (initState [] exampleFile) [globalLine]) macroDataLine) = [1] \<and>
    lastLabel (readLine (readLines (initState [] exampleFile) [globalLine]) macroDataLine) = Some 1)"
proof -
  let ?S = "readLines (initState [] exampleFile) [globalLine]"
  have st: "?S =
     \<lparr> uri = ''main.s'', definedSymbols = [0], referredSymbols = [], variables = [],
       labels = [1], macros = [], subroutines = [], dcLabel = [], includeDir = [],
       includedFiles = [],
       heap = [\<lparr> getLabel = ''FOO:'', getFile = ''main.s'', getRange = rangeAt 0 0 4,
                 getValue = None, getParent = ''FOO:'' \<rparr>,
               \<lparr> getLabel = ''FOO'', getFile = ''main.s'', getRange = rangeAt 0 0 4,
                 getValue = None, getParent = ''FOO'' \<rparr>],
       lastLabel = Some 1, labelsBeforeRts = [] \<rparr>"
    by (simp add: example_lines example_defs run_defs)
  have e: "macros ?S = []" "labels ?S = [1]" "lastLabel ?S = Some 1" "length (heap ?S) = 2"
    unfolding st by simp_all
  have h1: "hasLabel macroLine \<and> isMacro macroLine"
    and h2: "hasLabel localLine \<and> \<not> isMacro localLine" "isLocalLabel localLine"
    and h3: "\<not> hasLabel macroDataLine \<and> isMacro macroDataLine"
    by (simp_all add: example_lines example_defs line_test_defs)
  have t: "labelText ?S macroLine = ''PUSH''" "labelText ?S localLine = ''FOO.bar''"
    "data macroDataLine = ''POP''"
    unfolding st by (simp_all add: labelText_def example_lines example_defs line_test_defs)
  have c1: "(\<exists>s. macros (readLine ?S macroLine) = [s] \<and> 2 \<le> s \<and>
         getLabel (heap (readLine ?S macroLine) ! s) = ''PUSH'') \<and>
    labels (readLine ?S macroLine) = [1] \<and> lastLabel (readLine ?S macroLine) = Some 1"
    using C8_label_or_macro [of "[]" exampleFile "[globalLine]" macroLine] h1
    by (simp add: Let_def e t) fastforce
  have c2: "(\<exists>s. labels (readLine ?S localLine) = [1, s] \<and> 2 \<le> s \<and>
         getLabel (heap (readLine ?S localLine) ! s) = ''FOO.bar'') \<and>
    macros (readLine ?S localLine) = [] \<and> lastLabel (readLine ?S localLine) = Some 1"
    using C8_label_or_macro [of "[]" exampleFile "[globalLine]" localLine] h2
    by (simp add: Let_def e t) fastforce
  have c3: "(\<exists>s. macros (readLine ?S macroDataLine) = [s] \<and> 2 \<le> s \<and>
         getLabel (heap (readLine ?S macroDataLine) ! s) = ''POP'') \<and>
    labels (readLine ?S macroDataLine) = [1] \<and> lastLabel (readLine ?S macroDataLine) = Some 1"
    using C8_label_or_macro [of "[]" exampleFile "[globalLine]" macroDataLine] h3
    by (simp add: Let_def e t) fastforce
  from h1 h2 h3 c1 c2 c3 show ?thesis by blast
qed

section \<open>Labels in the document\<close>

lemma truncate_simps:
  "labels (SymbolFile.truncate st) = labels st"
  "macros (SymbolFile.truncate st) = macros st"
  "variables (SymbolFile.truncate st) = variables st"
  "dcLabel (SymbolFile.truncate st) = dcLabel st"
  "includeDir (SymbolFile.truncate st) = includeDir st"
  "includedFiles (SymbolFile.truncate st) = includedFiles st"
  "definedSymbols (SymbolFile.truncate st) = definedSymbols st"
  "referredSymbols (SymbolFile.truncate st) = referredSymbols st"
  "subroutines (SymbolFile.truncate st) = subroutines st"
  "uri (SymbolFile.truncate st) = uri st"
  by (simp_all add: SymbolFile.defs)

lemma map_update_same: "f y = f (xs ! i) \<Longrightarrow> map f (xs[i := y]) = map f xs"
  by (cases "i < length xs") (simp_all add: map_update list_update_same_conv list_update_beyond)

lemma subStep_getLabel:
  "map getLabel (subHeap (subStep subs lbr s l)) = map getLabel (subHeap s)"
  by (simp add: subStep_def Let_def map_update_same split: option.splits)

lemma subStep_length: "length (subHeap (subStep subs lbr s l)) = length (subHeap s)"
  using arg_cong [OF subStep_getLabel, of length subs lbr s l] by simp

lemma subLoop_getLabel:
  "map getLabel (subHeap (foldl (subStep subs lbr) s ls)) = map getLabel (subHeap s)"
  by (induction ls arbitrary: s) (simp_all add: subStep_getLabel)

lemma inferSubroutines_getLabel:
  "map getLabel (subHeap (inferSubroutines st)) = map getLabel (heap st)"
  by (simp add: inferSubroutines_def subLoop_def subLoop_getLabel)

lemma inferSubroutines_getLabel_nth:
  assumes "r < length (heap st)"
  shows "getLabel (subHeap (inferSubroutines st) ! r) = getLabel (heap st ! r)"
proof -
  have "length (subHeap (inferSubroutines st)) = length (heap st)"
    using arg_cong [OF inferSubroutines_getLabel, of length st] by simp
  with assms show ?thesis
    using arg_cong [OF inferSubroutines_getLabel, of "\<lambda>xs. xs ! r" st] by simp
qed

text \<open>The label of a line of the document, in the state after the whole first loop.\<close>

lemma readLines_label_at:
  assumes wf: "wellFormed st0" and l: "isLabelLine l"
  shows "labels (readLines st0 (pre @ l # post)) ! (length (labels st0) + length (filter isLabelLine pre))
           = length (heap (readSymbols (readLines st0 pre) l))" (is "labels ?fin ! ?k = ?r")
    and "length (heap (readSymbols (readLines st0 pre) l)) < length (heap (readLines st0 (pre @ l # post)))"
    and "heap (readLines st0 (pre @ l # post)) ! length (heap (readSymbols (readLines st0 pre) l)) =
          \<lparr> getLabel = labelText (readLines st0 pre) l, getFile = uri st0,
            getRange = labelRange l, getValue = None,
            getParent = labelText (readLines st0 pre) l \<rparr>"
proof -
  let ?st = "readLines st0 pre"
  have fin: "?fin = readLines (readLine ?st l) post"
    by (simp add: readLines_append readLines_Cons)
  have wfst: "wellFormed ?st" using wf by (rule wellFormed_readLines)
  have lab: "labels (readLine ?st l) = labels ?st @ [?r]" using l by (simp add: readLine_labels)
  have len: "length (labels ?st) = ?k" by (simp add: readLines_labels_length)
  have "labels ?fin ! ?k = labels (readLine ?st l) ! ?k"
    unfolding fin using readLines_labels_prefix [of "readLine ?st l" post] lab len
    by (simp add: prefix_nth)
  then show "labels ?fin ! ?k = ?r" using lab len by (simp add: nth_append)
  have lt: "?r < length (heap (readLine ?st l))" using l by (rule readLine_heap_length(2))
  have pre: "prefix (heap (readLine ?st l)) (heap ?fin)"
    unfolding fin by (rule readLines_heap)
  show "?r < length (heap ?fin)" using lt prefix_length_le [OF pre] by simp
  have "hasLabel l" using l by (simp add: isLabelLine_def)
  from readLine_label_symbol [OF wfst this] show "heap ?fin ! ?r =
          \<lparr> getLabel = labelText ?st l, getFile = uri st0,
            getRange = labelRange l, getValue = None, getParent = labelText ?st l \<rparr>"
    using prefix_nth [OF pre lt] by (simp add: readLines_uri)
qed

text \<open>The last global label line before a point of the document is \<open>lastLabel\<close> there.\<close>

lemma readLines_lastLabel_at:
  assumes wf: "wellFormed st0" and g: "isGlobalLabelLine g"
    and mid: "\<forall>m \<in> set mid. \<not> isGlobalLabelLine m"
  shows "lastLabel (readLines st0 (pre @ g # mid)) =
           Some (labels (readLines st0 (pre @ g # mid)) ! (length (labels st0) + length (filter isLabelLine pre)))"
    and "getLabel (heap (readLines st0 (pre @ g # mid)) !
           (labels (readLines st0 (pre @ g # mid)) ! (length (labels st0) + length (filter isLabelLine pre))))
         = replaceColon (label g)"
proof -
  have l: "isLabelLine g" and nl: "\<not> isLocalLabel g"
    using g by (simp_all add: isGlobalLabelLine_def)
  let ?st = "readLines st0 pre"
  have "lastLabel (readLines st0 (pre @ g # mid)) = lastLabel (readLine ?st g)"
    using readLines_lastLabel_keep [OF mid, of "readLine ?st g"]
    by (simp add: readLines_append readLines_Cons)
  also have "\<dots> = Some (length (heap (readSymbols ?st g)))"
    using g by (simp add: readLine_lastLabel)
  finally show "lastLabel (readLines st0 (pre @ g # mid)) =
           Some (labels (readLines st0 (pre @ g # mid)) ! (length (labels st0) + length (filter isLabelLine pre)))"
    by (simp add: readLines_label_at(1) [OF wf l])
  show "getLabel (heap (readLines st0 (pre @ g # mid)) !
           (labels (readLines st0 (pre @ g # mid)) ! (length (labels st0) + length (filter isLabelLine pre))))
         = replaceColon (label g)"
    using nl by (simp add: readLines_label_at [OF wf l] labelText_def)
qed

lemmas sub_defs = readDocument_def inferSubroutines_def subLoop_def subStep_def
  symbolsOf_def truncate_simps

text \<open>The label stored for a local label line that follows a global label line.\<close>

lemma readDocument_local_label:
  assumes "isGlobalLabelLine g" and "\<forall>m \<in> set mid. \<not> isGlobalLabelLine m"
    and "isLabelLine l" and "isLocalLabel l"
  shows "getLabel (fst (readDocument h f (pre @ g # mid @ l # post)) !
           (labels (snd (readDocument h f (pre @ g # mid @ l # post))) !
              length (filter isLabelLine (pre @ g # mid))))
         = replaceColon (label g) @ replaceColon (label l)"
proof -
  let ?ini = "initState h f"
  let ?doc = "(pre @ g # mid) @ l # post"
  let ?st = "readLines ?ini (pre @ g # mid)"
  let ?fin = "readLines ?ini ?doc"
  let ?k = "length (filter isLabelLine (pre @ g # mid))"
  have wf: "wellFormed ?ini" by (rule wellFormed_initState)
  have k: "labels ?fin ! ?k = length (heap (readSymbols ?st l))"
    and lt: "length (heap (readSymbols ?st l)) < length (heap ?fin)"
    and sym: "getLabel (heap ?fin ! length (heap (readSymbols ?st l))) = labelText ?st l"
    using readLines_label_at [OF wf assms(3), of "pre @ g # mid" post]
    by (simp_all add: initState_simps)
  have "labelText ?st l = replaceColon (label g) @ replaceColon (label l)"
    using assms(4) readLines_lastLabel_at [OF wf assms(1,2), of pre]
    by (simp add: labelText_def)
  then show ?thesis
    using k sym inferSubroutines_getLabel_nth [OF lt]
    by (simp add: readDocument_def Let_def truncate_simps)
qed

text \<open>
  Claim C1, as the code has it. The symbol that \<open>readDocument\<close> stores in \<open>labels\<close> for
  a local label does not carry the local text alone: its label is the name of the nearest
  preceding global label followed by the local text, composed when the line is read. Here
  \<open>g\<close> is a global label line, no line of \<open>mid\<close> is one, and \<open>l\<close> is a line with a local
  label; the symbol of \<open>l\<close> is the entry of \<open>labels\<close> at the number of label lines before it.
\<close>

theorem C1_local_label_composed:
  assumes "isGlobalLabelLine g" and "\<forall>m \<in> set mid. \<not> isGlobalLabelLine m"
    and "isLabelLine l" and "isLocalLabel l"
  shows "getLabel (fst (readDocument h f (pre @ g # mid @ l # post)) !
           (labels (snd (readDocument h f (pre @ g # mid @ l # post))) !
              length (filter isLabelLine (pre @ g # mid))))
         = replaceColon (label g) @ replaceColon (label l)"
  using assms by (rule readDocument_local_label)


theorem C1_local_label_composed_witness:
  "isGlobalLabelLine globalLine \<and> \<not> isGlobalLabelLine macroLine \<and> isLabelLine localLine \<and>
   isLocalLabel localLine \<and>
   getLabel (fst (readDocument [] exampleFile [globalLine, macroLine, localLine]) !
      (labels (snd (readDocument [] exampleFile [globalLine, macroLine, localLine])) ! 1))
     = ''FOO.bar''"
proof -
  have h: "isGlobalLabelLine globalLine" "\<forall>m \<in> set [macroLine]. \<not> isGlobalLabelLine m"
    "isLabelLine localLine" "isLocalLabel localLine"
    by (simp_all add: example_lines example_defs line_test_defs)
  have e: "length (filter isLabelLine ([] @ globalLine # [macroLine])) = 1"
    "replaceColon (label globalLine) @ replaceColon (label localLine) = ''FOO.bar''"
    by (simp_all add: example_lines example_defs line_test_defs)
  from C1_local_label_composed [OF h, where h = "[]" and f = exampleFile and pre = "[]" and post = "[]"] h
  show ?thesis
    unfolding e by simp
qed

text \<open>
  The document \<open>FOO:\<close>, \<open>.bar\<close>: the symbol stored for \<open>.bar\<close> has the label
  \<open>FOO.bar\<close>, not \<open>.bar\<close>.
\<close>

theorem C1_counterexample:
  "label localLine = ''.bar'' \<and>
   map getLabel (symbolsOf (fst (readDocument [] exampleFile [globalLine, localLine]))
      (labels (snd (readDocument [] exampleFile [globalLine, localLine])))) = [''FOO'', ''FOO.bar''] \<and>
   getLabel (fst (readDocument [] exampleFile [globalLine, localLine]) !
      (labels (snd (readDocument [] exampleFile [globalLine, localLine])) ! 1)) \<noteq> label localLine"
  by (simp add: example_lines example_defs run_defs sub_defs)

text \<open>
  Claim C9. A local label before any global label of the document is still stored in
  \<open>labels\<close>, and its label is the text \<open>undefined\<close> followed by the local text.
\<close>

theorem C9_local_label_undefined:
  assumes "\<forall>m \<in> set pre. \<not> isGlobalLabelLine m" and "isLabelLine l" and "isLocalLabel l"
  shows "getLabel (fst (readDocument h f (pre @ l # post)) !
           (labels (snd (readDocument h f (pre @ l # post))) ! length (filter isLabelLine pre)))
         = ''undefined'' @ replaceColon (label l)"
proof -
  let ?ini = "initState h f"
  let ?st = "readLines ?ini pre"
  let ?fin = "readLines ?ini (pre @ l # post)"
  let ?k = "length (filter isLabelLine pre)"
  have wf: "wellFormed ?ini" by (rule wellFormed_initState)
  have k: "labels ?fin ! ?k = length (heap (readSymbols ?st l))"
    and lt: "length (heap (readSymbols ?st l)) < length (heap ?fin)"
    and sym: "getLabel (heap ?fin ! length (heap (readSymbols ?st l))) = labelText ?st l"
    using readLines_label_at [OF wf assms(2), of pre post]
    by (simp_all add: initState_simps)
  have "lastLabel ?st = None"
    using readLines_lastLabel_keep [OF assms(1), of ?ini] by (simp add: initState_simps)
  then have "labelText ?st l = ''undefined'' @ replaceColon (label l)"
    using assms(3) by (simp add: labelText_def)
  then show ?thesis
    using k sym inferSubroutines_getLabel_nth [OF lt]
    by (simp add: readDocument_def Let_def truncate_simps)
qed



theorem C9_local_label_undefined_witness:
  "\<not> isGlobalLabelLine macroLine \<and> isLabelLine localLine \<and> isLocalLabel localLine \<and>
   getLabel (fst (readDocument [] exampleFile [macroLine, localLine, globalLine]) !
      (labels (snd (readDocument [] exampleFile [macroLine, localLine, globalLine])) ! 0))
     = ''undefined.bar''"
proof -
  have h: "\<forall>m \<in> set [macroLine]. \<not> isGlobalLabelLine m"
    "isLabelLine localLine" "isLocalLabel localLine"
    by (simp_all add: example_lines example_defs line_test_defs)
  have e: "length (filter isLabelLine [macroLine]) = 0"
    "''undefined'' @ replaceColon (label localLine) = ''undefined.bar''"
    by (simp_all add: example_lines example_defs line_test_defs)
  from C9_local_label_undefined [OF h, where h = "[]" and f = exampleFile and post = "[globalLine]"] h
  show ?thesis
    unfolding e by simp
qed

text \<open>
  Claim C3, as the code has it. A data directive (\<open>dc\<close>, \<open>ds\<close>, \<open>incbin\<close>) records in
  \<open>dcLabel\<close> the object that \<open>lastLabel\<close> holds: the label of the nearest global label line
  at or before the directive (\<open>g\<close>, with no global label line in \<open>mid\<close>; the directive
  \<open>d\<close> is the last line of \<open>g # mid\<close>). Local labels in between are passed over. With no
  global label line so far nothing is recorded. The second loop leaves \<open>dcLabel\<close> as it is.
\<close>

theorem C3_data_owner_is_last_global_label:
  "(isDataLine d \<and> ls @ [d] = pre @ g # mid \<and> isGlobalLabelLine g \<and>
    (\<forall>m \<in> set mid. \<not> isGlobalLabelLine m) \<longrightarrow>
      dcLabel (readLines (initState h f) (ls @ [d])) =
        dcLabel (readLines (initState h f) ls) @
          [labels (readLines (initState h f) (ls @ [d])) ! length (filter isLabelLine pre)] \<and>
      getLabel (heap (readLines (initState h f) (ls @ [d])) !
          (labels (readLines (initState h f) (ls @ [d])) ! length (filter isLabelLine pre)))
        = replaceColon (label g)) \<and>
   (isDataLine d \<and> (\<forall>m \<in> set (ls @ [d]). \<not> isGlobalLabelLine m) \<longrightarrow>
      dcLabel (readLines (initState h f) (ls @ [d])) = dcLabel (readLines (initState h f) ls)) \<and>
   dcLabel (snd (readDocument h f doc)) = dcLabel (readLines (initState h f) doc)"
proof (intro conjI impI)
  let ?ini = "initState h f"
  have wf: "wellFormed ?ini" by (rule wellFormed_initState)
  {
    assume h: "isDataLine d \<and> ls @ [d] = pre @ g # mid \<and> isGlobalLabelLine g \<and>
      (\<forall>m \<in> set mid. \<not> isGlobalLabelLine m)"
    let ?fin = "readLines ?ini (ls @ [d])"
    let ?r = "labels ?fin ! length (filter isLabelLine pre)"
    have g: "isGlobalLabelLine g" and mid: "\<forall>m \<in> set mid. \<not> isGlobalLabelLine m"
      and eq: "ls @ [d] = pre @ g # mid" and d: "isDataLine d"
      using h by blast+
    have ll: "lastLabel ?fin = Some ?r" and gl: "getLabel (heap ?fin ! ?r) = replaceColon (label g)"
      unfolding eq using readLines_lastLabel_at [OF wf g mid, of pre]
      by (simp_all add: initState_simps)
    have "dcLabel (readLine (readLines ?ini ls) d) =
        (case lastLabel (readLine (readLines ?ini ls) d) of
           None \<Rightarrow> dcLabel (readLines ?ini ls)
         | Some r \<Rightarrow> dcLabel (readLines ?ini ls) @ [r])"
      using d by (simp add: readLine_dcLabel)
    then have dc: "dcLabel ?fin = dcLabel (readLines ?ini ls) @ [?r]"
      using ll unfolding readLines_snoc by simp
    show "dcLabel ?fin = dcLabel (readLines ?ini ls) @ [?r]" by (rule dc)
    show "getLabel (heap ?fin ! ?r) = replaceColon (label g)" by (rule gl)
  }
  {
    assume h: "isDataLine d \<and> (\<forall>m \<in> set (ls @ [d]). \<not> isGlobalLabelLine m)"
    then have "\<forall>m \<in> set (ls @ [d]). \<not> isGlobalLabelLine m" by blast
    from readLines_lastLabel_keep [OF this, of ?ini]
    have "lastLabel (readLine (readLines ?ini ls) d) = None"
      by (simp add: initState_simps readLines_snoc)
    moreover have "dcLabel (readLine (readLines ?ini ls) d) =
        (case lastLabel (readLine (readLines ?ini ls) d) of
           None \<Rightarrow> dcLabel (readLines ?ini ls)
         | Some r \<Rightarrow> dcLabel (readLines ?ini ls) @ [r])"
      using h by (simp add: readLine_dcLabel)
    ultimately show "dcLabel (readLines ?ini (ls @ [d])) = dcLabel (readLines ?ini ls)"
      unfolding readLines_snoc by simp
  }
  show "dcLabel (snd (readDocument h f doc)) = dcLabel (readLines ?ini doc)"
    by (simp add: readDocument_def Let_def truncate_simps)
qed

theorem C3_data_owner_is_last_global_label_witness:
  "isDataLine dataLine \<and> isGlobalLabelLine globalLine \<and> \<not> isGlobalLabelLine localLine \<and>
   \<not> isGlobalLabelLine dataLine \<and>
   dcLabel (readLines (initState [] exampleFile) [globalLine, localLine, dataLine]) =
     dcLabel (readLines (initState [] exampleFile) [globalLine, localLine]) @
       [labels (readLines (initState [] exampleFile) [globalLine, localLine, dataLine]) ! 0] \<and>
   getLabel (heap (readLines (initState [] exampleFile) [globalLine, localLine, dataLine]) !
     (labels (readLines (initState [] exampleFile) [globalLine, localLine, dataLine]) ! 0)) = ''FOO'' \<and>
   \<not> isGlobalLabelLine macroLine \<and>
   dcLabel (readLines (initState [] exampleFile) [macroLine, dataLine]) =
     dcLabel (readLines (initState [] exampleFile) [macroLine])"
proof -
  have h: "isDataLine dataLine" "isGlobalLabelLine globalLine"
    "\<not> isGlobalLabelLine localLine" "\<not> isGlobalLabelLine dataLine"
    "\<not> isGlobalLabelLine macroLine"
    by (simp_all add: dataLine_def example_lines example_defs line_test_defs)
  have e: "replaceColon (label globalLine) = ''FOO''"
    by (simp add: example_lines example_defs line_test_defs)
  have a: "dcLabel (readLines (initState [] exampleFile) [globalLine, localLine, dataLine]) =
     dcLabel (readLines (initState [] exampleFile) [globalLine, localLine]) @
       [labels (readLines (initState [] exampleFile) [globalLine, localLine, dataLine]) ! 0] \<and>
   getLabel (heap (readLines (initState [] exampleFile) [globalLine, localLine, dataLine]) !
     (labels (readLines (initState [] exampleFile) [globalLine, localLine, dataLine]) ! 0)) = ''FOO''"
    using C3_data_owner_is_last_global_label
      [where d = dataLine and ls = "[globalLine, localLine]" and pre = "[]" and g = globalLine
         and mid = "[localLine, dataLine]" and h = "[]" and f = exampleFile] h
    unfolding e by simp
  have b: "dcLabel (readLines (initState [] exampleFile) [macroLine, dataLine]) =
     dcLabel (readLines (initState [] exampleFile) [macroLine])"
    using C3_data_owner_is_last_global_label
      [where d = dataLine and ls = "[macroLine]" and h = "[]" and f = exampleFile] h
    by simp
  from h a b show ?thesis by blast
qed

text \<open>
  The document \<open>FOO:\<close>, \<open>.bar\<close>, \<open>dc.b 1\<close>: the labels are the objects 1 and 3, the
  nearest label before the directive is object 3 (\<open>FOO.bar\<close>), and \<open>dcLabel\<close> holds
  object 1 (\<open>FOO\<close>).
\<close>

theorem C3_counterexample:
  "isDataLine dataLine \<and> hasLabel localLine \<and>
   labels (snd (readDocument [] exampleFile [globalLine, localLine, dataLine])) = [1, 3] \<and>
   dcLabel (snd (readDocument [] exampleFile [globalLine, localLine, dataLine])) = [1] \<and>
   map getLabel (symbolsOf (fst (readDocument [] exampleFile [globalLine, localLine, dataLine])) [1, 3])
      = [''FOO'', ''FOO.bar''] \<and>
   last (labels (snd (readDocument [] exampleFile [globalLine, localLine, dataLine])))
      \<notin> set (dcLabel (snd (readDocument [] exampleFile [globalLine, localLine, dataLine])))"
  by (simp add: dataLine_def example_lines example_defs run_defs sub_defs line_test_defs)

section \<open>Include directives\<close>






lemma pushReferred_includedFiles: "includedFiles (pushReferred st rs) = includedFiles st"
  by (rule pushReferred_keeps)







section \<open>Properties of the second loop\<close>

lemma subLoop_Nil: "subLoop st [] = \<lparr> subHeap = heap st, inSub = False, lastParent = None \<rparr>"
  by (simp add: subLoop_def)

lemma subLoop_snoc:
  "subLoop st (ls @ [l]) = subStep (subroutines st) (labelsBeforeRts st) (subLoop st ls) l"
  by (simp add: subLoop_def)

lemma subLoop_append:
  "subLoop st (xs @ ys) = foldl (subStep (subroutines st) (labelsBeforeRts st)) (subLoop st xs) ys"
  by (simp add: subLoop_def)

lemma arrayIndexOf_ge0: "(arrayIndexOf xs x \<ge> 0) = (x \<in> set xs)"
  by (induction xs) (auto simp: Let_def)

text \<open>Positions: \<open>isBeforeOrEqual\<close> is a total preorder, so ranges only widen.\<close>

lemma isBeforeOrEqual_refl: "isBeforeOrEqual p p"
  by (simp add: isBeforeOrEqual_def)

lemma isBeforeOrEqual_trans:
  "isBeforeOrEqual p q \<Longrightarrow> isBeforeOrEqual q r \<Longrightarrow> isBeforeOrEqual p r"
  by (auto simp: isBeforeOrEqual_def split: if_splits)

lemma isBeforeOrEqual_total: "isBeforeOrEqual p q \<or> isBeforeOrEqual q p"
  by (auto simp: isBeforeOrEqual_def)

lemma contains_refl: "contains r r"
  by (simp add: contains_def isBeforeOrEqual_refl)

lemma contains_trans: "contains a b \<Longrightarrow> contains b c \<Longrightarrow> contains a c"
  by (auto simp: contains_def intro: isBeforeOrEqual_trans)

lemma contains_union: "contains (union a b) a" "contains (union a b) b"
  using isBeforeOrEqual_total [of "start a" "start b"] isBeforeOrEqual_total [of "endPos a" "endPos b"]
  by (auto simp: contains_def union_def minPos_def maxPos_def isBeforeOrEqual_refl)

text \<open>One round of the second loop: which flags and which cells of the store it changes.\<close>

lemma subStep_lastParent:
  "lastParent (subStep subs lbr s l) =
     (if getLabel (subHeap s ! l) \<in> set subs then Some l else lastParent s)"
  by (simp add: subStep_def Let_def arrayIndexOf_ge0 split: option.splits)

lemma subStep_inSub:
  "inSub (subStep subs lbr s l) =
     (l \<notin> set lbr \<and> (inSub s \<or> getLabel (subHeap s ! l) \<in> set subs))"
  by (simp add: subStep_def Let_def arrayIndexOf_ge0 split: option.splits)

lemma nth_update_same: "f v = f (h ! p) \<Longrightarrow> f (h[p := v] ! x) = f (h ! x)"
  by (cases "x = p"; cases "p < length h") (simp_all add: list_update_beyond)

lemma subStep_getParent_other:
  "x \<noteq> l \<Longrightarrow> getParent (subHeap (subStep subs lbr s l) ! x) = getParent (subHeap s ! x)"
  by (simp add: subStep_def Let_def nth_update_same split: option.splits)

lemma subStep_getRange_other:
  "lastParent s \<noteq> Some x \<Longrightarrow>
     getRange (subHeap (subStep subs lbr s l) ! x) = getRange (subHeap s ! x)"
  by (auto simp: subStep_def Let_def nth_update_same split: option.splits)

lemma widen_update:
  "contains (getRange v) (getRange (h ! p)) \<Longrightarrow>
     contains (getRange (h[p := v] ! x)) (getRange (h ! x))"
  by (cases "x = p"; cases "p < length h") (simp_all add: list_update_beyond contains_refl)

lemma subStep_getRange_widens:
  "contains (getRange (subHeap (subStep subs lbr s l) ! x)) (getRange (subHeap s ! x))"
proof -
  have "contains (getRange (h1[p := (h1 ! p)\<lparr> getRange := union (getRange (h1 ! p)) r \<rparr>] ! x))
          (getRange (subHeap s ! x))"
    if "h1 = (subHeap s)[l := (subHeap s ! l)\<lparr> getParent := q \<rparr>]" for h1 p q r
  proof -
    have "getRange (h1 ! x) = getRange (subHeap s ! x)"
      unfolding that by (simp add: nth_update_same)
    then show ?thesis
      using widen_update [of "(h1 ! p)\<lparr> getRange := union (getRange (h1 ! p)) r \<rparr>" h1 p x]
      by (simp add: contains_union)
  qed
  then show ?thesis
    by (simp add: subStep_def Let_def contains_refl split: option.splits)
qed

text \<open>Several rounds of the second loop.\<close>

lemma subRounds_getLabel_nth:
  "x < length (subHeap s) \<Longrightarrow>
     getLabel (subHeap (foldl (subStep subs lbr) s ls) ! x) = getLabel (subHeap s ! x)"
  using arg_cong [OF subLoop_getLabel, of "\<lambda>xs. xs ! x" subs lbr s ls]
    arg_cong [OF subLoop_getLabel, of length subs lbr s ls]
  by simp

lemma subRounds_length:
  "length (subHeap (foldl (subStep subs lbr) s ls)) = length (subHeap s)"
  using arg_cong [OF subLoop_getLabel, of length subs lbr s ls] by simp

lemma subRounds_getParent_other:
  "x \<notin> set ls \<Longrightarrow>
     getParent (subHeap (foldl (subStep subs lbr) s ls) ! x) = getParent (subHeap s ! x)"
  by (induction ls arbitrary: s) (simp_all add: subStep_getParent_other)

lemma subRounds_getRange_other:
  "x \<notin> set ls \<Longrightarrow> lastParent s \<noteq> Some x \<Longrightarrow>
     getRange (subHeap (foldl (subStep subs lbr) s ls) ! x) = getRange (subHeap s ! x)"
proof (induction ls arbitrary: s)
  case Nil
  show ?case by simp
next
  case (Cons l ls)
  have "lastParent (subStep subs lbr s l) \<noteq> Some x"
    using Cons.prems by (simp add: subStep_lastParent)
  with Cons show ?case by (simp add: subStep_getRange_other)
qed

lemma subRounds_getRange_widens:
  "contains (getRange (subHeap (foldl (subStep subs lbr) s ls) ! x)) (getRange (subHeap s ! x))"
proof (induction ls arbitrary: s)
  case Nil
  show ?case by (simp add: contains_refl)
next
  case (Cons l ls)
  show ?case
    using Cons [of "subStep subs lbr s l"] subStep_getRange_widens [of subs lbr s l x]
    by (auto intro: contains_trans)
qed

lemma subRounds_tracking:
  assumes "inSub s" and "lastParent s = Some p"
    and "\<forall>b \<in> set ls. getLabel (subHeap s ! b) \<notin> set subs \<and> b \<notin> set lbr \<and> b < length (subHeap s)"
  shows "inSub (foldl (subStep subs lbr) s ls) \<and> lastParent (foldl (subStep subs lbr) s ls) = Some p"
  using assms
proof (induction ls arbitrary: s)
  case Nil
  then show ?case by simp
next
  case (Cons l ls)
  let ?s = "subStep subs lbr s l"
  have a: "inSub ?s" "lastParent ?s = Some p"
    using Cons.prems by (simp_all add: subStep_inSub subStep_lastParent)
  have "\<forall>b \<in> set ls. getLabel (subHeap ?s ! b) \<notin> set subs \<and> b \<notin> set lbr \<and> b < length (subHeap ?s)"
    using Cons.prems(3) subRounds_getLabel_nth [of _ s subs lbr "[l]"]
      subRounds_length [of subs lbr s "[l]"] by simp
  from Cons.IH [OF a this] show ?case by simp
qed

text \<open>The round that assigns a parent: the label \<open>l\<close> inside the subroutine of \<open>p\<close>.\<close>

lemma subStep_assigns:
  assumes "inSub s" and "lastParent s = Some p" and "getLabel (subHeap s ! l) \<notin> set subs"
    and "l \<noteq> p" and "l < length (subHeap s)" and "p < length (subHeap s)"
  shows "getParent (subHeap (subStep subs lbr s l) ! l) = getLabel (subHeap s ! p)"
    and "contains (getRange (subHeap (subStep subs lbr s l) ! p))
           (getRange (subHeap (subStep subs lbr s l) ! l))"
  using assms
  by (simp_all add: subStep_def Let_def arrayIndexOf_ge0 contains_union)

lemma readLines_subroutines:
  "subroutines (readLines st ls) = subroutines st @ map data (filter isCall ls)"
  by (induction ls arbitrary: st) (simp_all add: readLines_Nil readLines_Cons readLine_subroutines)

lemmas sub_lines = callP_def labelP_def callQ_def labelQ_def labelC_def localC_def rtsLine_def
  labelDone_def nestedDoc_def twoTargetsDoc_def subDoc_def shortDoc_def

lemma nestedDoc_run:
  "labels (readLines (initState [] exampleFile) nestedDoc) = [2, 5, 7]"
  "subroutines (readLines (initState [] exampleFile) nestedDoc) = [''P'', ''Q'']"
  "labelsBeforeRts (readLines (initState [] exampleFile) nestedDoc) = [7]"
  "getLabel (heap (readLines (initState [] exampleFile) nestedDoc) ! 5) = ''Q''"
  "getLabel (heap (readLines (initState [] exampleFile) nestedDoc) ! 7) = ''c''"
  by (simp_all add: sub_lines example_defs run_defs)

lemma subDoc_run:
  "labels (readLines (initState [] exampleFile) subDoc) = [2, 4, 6]"
  "subroutines (readLines (initState [] exampleFile) subDoc) = [''P'']"
  "labelsBeforeRts (readLines (initState [] exampleFile) subDoc) = [6]"
  "getLabel (heap (readLines (initState [] exampleFile) subDoc) ! 2) = ''P''"
  "getLabel (heap (readLines (initState [] exampleFile) subDoc) ! 4) = ''P.c''"
  "getLabel (heap (readLines (initState [] exampleFile) subDoc) ! 6) = ''done''"
  by (simp_all add: sub_lines example_defs run_defs)

lemma shortDoc_run:
  "labels (readLines (initState [] exampleFile) shortDoc) = [2, 4, 7]"
  "subroutines (readLines (initState [] exampleFile) shortDoc) = [''P'']"
  "labelsBeforeRts (readLines (initState [] exampleFile) shortDoc) = [2]"
  "getLabel (heap (readLines (initState [] exampleFile) shortDoc) ! 2) = ''P''"
  by (simp_all add: sub_lines example_defs run_defs)

text \<open>
  Claim C4, as the code has it. Let \<open>p\<close> be a label whose name is in \<open>subroutines\<close> (the
  operands of the call lines of the document), and \<open>l\<close> a later label, such that neither
  \<open>p\<close> nor a label between them is in \<open>labelsBeforeRts\<close>, and neither \<open>l\<close> nor a label
  between them has a name in \<open>subroutines\<close>. Then after \<open>readDocument\<close> the parent of \<open>l\<close>
  is the label of \<open>p\<close>, and the range of \<open>p\<close> contains the range of \<open>l\<close>.
\<close>

theorem C4_parent_inside_subroutine:
  assumes "labels (readLines (initState h f) doc) = A @ p # B @ l # C"
    and "getLabel (heap (readLines (initState h f) doc) ! p)
           \<in> set (subroutines (readLines (initState h f) doc))"
    and "\<forall>b \<in> set (B @ [l]). getLabel (heap (readLines (initState h f) doc) ! b)
           \<notin> set (subroutines (readLines (initState h f) doc))"
    and "\<forall>b \<in> set (p # B). b \<notin> set (labelsBeforeRts (readLines (initState h f) doc))"
  shows "getParent (fst (readDocument h f doc) ! l) = getLabel (fst (readDocument h f doc) ! p) \<and>
         contains (getRange (fst (readDocument h f doc) ! p)) (getRange (fst (readDocument h f doc) ! l)) \<and>
         subroutines (readLines (initState h f) doc) = map data (filter isCall doc)"
proof -
  let ?st = "readLines (initState h f) doc"
  let ?subs = "subroutines ?st"
  let ?lbr = "labelsBeforeRts ?st"
  let ?F = "foldl (subStep ?subs ?lbr)"
  have wf: "wellFormed ?st" by (rule wellFormed_reach)
  have lab: "labels ?st = A @ p # B @ l # C" by (rule assms(1))
  have dist: "distinct (A @ p # B @ l # C)" and bound: "\<forall>r \<in> set (A @ p # B @ l # C). r < length (heap ?st)"
    using wf unfolding wellFormed_def lab by simp_all
  have pl: "p < length (heap ?st)" "l < length (heap ?st)" "l \<noteq> p" "l \<notin> set C"
    using dist bound by auto
  let ?sA = "subLoop ?st A"
  have lenA: "length (subHeap ?sA) = length (heap ?st)"
    by (simp add: subLoop_def subRounds_length)
  have glA: "x < length (heap ?st) \<Longrightarrow> getLabel (subHeap ?sA ! x) = getLabel (heap ?st ! x)" for x
    by (simp add: subLoop_def subRounds_getLabel_nth)
  let ?sp = "subStep ?subs ?lbr ?sA p"
  have sp: "inSub ?sp" "lastParent ?sp = Some p"
    using assms(2,4) pl(1) by (simp_all add: subStep_inSub subStep_lastParent glA)
  have lenp: "length (subHeap ?sp) = length (heap ?st)"
    using subRounds_length [of ?subs ?lbr ?sA "[p]"] lenA by simp
  have glp: "x < length (heap ?st) \<Longrightarrow> getLabel (subHeap ?sp ! x) = getLabel (heap ?st ! x)" for x
    using subRounds_getLabel_nth [of x ?sA ?subs ?lbr "[p]"] lenA glA by simp
  let ?sB = "?F ?sp B"
  have "\<forall>b \<in> set B. getLabel (subHeap ?sp ! b) \<notin> set ?subs \<and> b \<notin> set ?lbr \<and> b < length (subHeap ?sp)"
    using assms(3,4) bound by (simp add: glp lenp)
  from subRounds_tracking [OF sp this]
  have sB: "inSub ?sB" "lastParent ?sB = Some p" by simp_all
  have lenB: "length (subHeap ?sB) = length (heap ?st)" by (simp add: subRounds_length lenp)
  have glB: "x < length (heap ?st) \<Longrightarrow> getLabel (subHeap ?sB ! x) = getLabel (heap ?st ! x)" for x
    by (simp add: subRounds_getLabel_nth lenp glp)
  let ?sl = "subStep ?subs ?lbr ?sB l"
  have nl: "getLabel (subHeap ?sB ! l) \<notin> set ?subs" using assms(3) pl(2) by (simp add: glB)
  have asg: "getParent (subHeap ?sl ! l) = getLabel (heap ?st ! p)"
    "contains (getRange (subHeap ?sl ! p)) (getRange (subHeap ?sl ! l))"
    using subStep_assigns [OF sB nl pl(3), of ?lbr] pl(1,2) by (simp_all add: lenB glB)
  have lpl: "lastParent ?sl \<noteq> Some l"
    using nl sB(2) pl(3) by (simp add: subStep_lastParent)
  have fin: "inferSubroutines ?st = ?F ?sl C"
    by (simp add: inferSubroutines_def lab subLoop_def)
  have 1: "getParent (subHeap (?F ?sl C) ! l) = getLabel (heap ?st ! p)"
    using subRounds_getParent_other [OF pl(4)] asg(1) by simp
  have 2: "getRange (subHeap (?F ?sl C) ! l) = getRange (subHeap ?sl ! l)"
    using subRounds_getRange_other [OF pl(4) lpl] by simp
  have 3: "contains (getRange (subHeap (?F ?sl C) ! p)) (getRange (subHeap ?sl ! p))"
    by (rule subRounds_getRange_widens)
  have 4: "getLabel (subHeap (inferSubroutines ?st) ! p) = getLabel (heap ?st ! p)"
    using pl(1) by (rule inferSubroutines_getLabel_nth)
  have "getParent (subHeap (inferSubroutines ?st) ! l) = getLabel (subHeap (inferSubroutines ?st) ! p)"
    using 1 4 unfolding fin by simp
  moreover have "contains (getRange (subHeap (inferSubroutines ?st) ! p))
      (getRange (subHeap (inferSubroutines ?st) ! l))"
    unfolding fin 2 using 3 asg(2) by (rule contains_trans)
  moreover have "subroutines ?st = map data (filter isCall doc)"
    by (simp add: readLines_subroutines initState_simps)
  ultimately show ?thesis by (simp add: readDocument_def Let_def)
qed

theorem C4_parent_inside_subroutine_witness:
  "labels (readLines (initState [] exampleFile) subDoc) = [] @ 2 # [4] @ 6 # [] \<and>
   getLabel (heap (readLines (initState [] exampleFile) subDoc) ! 2)
     \<in> set (subroutines (readLines (initState [] exampleFile) subDoc)) \<and>
   getLabel (heap (readLines (initState [] exampleFile) subDoc) ! 4)
     \<notin> set (subroutines (readLines (initState [] exampleFile) subDoc)) \<and>
   getLabel (heap (readLines (initState [] exampleFile) subDoc) ! 6)
     \<notin> set (subroutines (readLines (initState [] exampleFile) subDoc)) \<and>
   2 \<notin> set (labelsBeforeRts (readLines (initState [] exampleFile) subDoc)) \<and>
   4 \<notin> set (labelsBeforeRts (readLines (initState [] exampleFile) subDoc)) \<and>
   getParent (fst (readDocument [] exampleFile subDoc) ! 6) = ''P'' \<and>
   contains (getRange (fst (readDocument [] exampleFile subDoc) ! 2))
     (getRange (fst (readDocument [] exampleFile subDoc) ! 6))"
proof -
  let ?st = "readLines (initState [] exampleFile) subDoc"
  have h1: "labels ?st = [] @ 2 # [4] @ 6 # []" by (simp add: subDoc_run)
  have h2: "getLabel (heap ?st ! 2) \<in> set (subroutines ?st)" by (simp add: subDoc_run)
  have h3: "\<forall>b \<in> set ([4] @ [6]). getLabel (heap ?st ! b) \<notin> set (subroutines ?st)"
    by (simp add: subDoc_run)
  have h4: "\<forall>b \<in> set (2 # [4]). b \<notin> set (labelsBeforeRts ?st)" by (simp add: subDoc_run)
  have "getLabel (fst (readDocument [] exampleFile subDoc) ! 2) = ''P''"
    by (simp add: sub_lines example_defs run_defs sub_defs)
  with C4_parent_inside_subroutine [OF h1 h2 h3 h4] h1 h2 h3 h4 show ?thesis by simp
qed

text \<open>
  The document \<open>bsr P\<close>, \<open>bsr.w Q\<close>, \<open>P:\<close>, \<open>Q:\<close>, \<open>done: rts\<close>: the label \<open>Q\<close>
  follows the call target \<open>P\<close> and comes before the label recorded at the return, and its
  parent is \<open>Q\<close>, not \<open>P\<close>.
\<close>

theorem C4_counterexample:
  "labels (snd (readDocument [] exampleFile twoTargetsDoc)) = [3, 5, 7] \<and>
   subroutines (snd (readDocument [] exampleFile twoTargetsDoc)) = [''P'', ''Q''] \<and>
   labelsBeforeRts (readLines (initState [] exampleFile) twoTargetsDoc) = [7] \<and>
   map getLabel (symbolsOf (fst (readDocument [] exampleFile twoTargetsDoc)) [3, 5, 7])
     = [''P'', ''Q'', ''done''] \<and>
   map getParent (symbolsOf (fst (readDocument [] exampleFile twoTargetsDoc)) [3, 5, 7])
     = [''P'', ''Q'', ''Q''] \<and>
   getParent (fst (readDocument [] exampleFile twoTargetsDoc) ! 5)
     \<noteq> getLabel (fst (readDocument [] exampleFile twoTargetsDoc) ! 3)"
  by (simp add: sub_lines example_defs run_defs sub_defs)

lemma subLoop_getLabel_nth:
  "x < length (heap st) \<Longrightarrow> getLabel (subHeap (subLoop st ls) ! x) = getLabel (heap st ! x)"
  by (simp add: subLoop_def subRounds_getLabel_nth)

text \<open>
  Claim C2, as the code has it. In the round of the second loop for a label \<open>l\<close> (after
  the rounds for the labels \<open>A\<close> before it): when the name of \<open>l\<close> is in
  \<open>subroutines\<close>, \<open>l\<close> becomes the current parent, whatever the parent was, so a nested
  call target does replace it; when it is not, the current parent stays. No round resets the
  parent at a return: a label recorded in \<open>labelsBeforeRts\<close> only ends the tracking.
\<close>

theorem C2_call_target_becomes_parent:
  assumes "labels (readLines (initState h f) doc) = A @ l # C"
  shows "(getLabel (heap (readLines (initState h f) doc) ! l)
            \<in> set (subroutines (readLines (initState h f) doc)) \<longrightarrow>
          lastParent (subLoop (readLines (initState h f) doc) (A @ [l])) = Some l) \<and>
         (getLabel (heap (readLines (initState h f) doc) ! l)
            \<notin> set (subroutines (readLines (initState h f) doc)) \<longrightarrow>
          lastParent (subLoop (readLines (initState h f) doc) (A @ [l])) =
            lastParent (subLoop (readLines (initState h f) doc) A)) \<and>
         inSub (subLoop (readLines (initState h f) doc) (A @ [l])) =
           (l \<notin> set (labelsBeforeRts (readLines (initState h f) doc)) \<and>
            (inSub (subLoop (readLines (initState h f) doc) A) \<or>
             getLabel (heap (readLines (initState h f) doc) ! l)
               \<in> set (subroutines (readLines (initState h f) doc))))"
proof -
  let ?st = "readLines (initState h f) doc"
  have "wellFormed ?st" by (rule wellFormed_reach)
  then have "l < length (heap ?st)" unfolding wellFormed_def assms by simp
  then have "getLabel (subHeap (subLoop ?st A) ! l) = getLabel (heap ?st ! l)"
    by (rule subLoop_getLabel_nth)
  then show ?thesis
    by (simp add: subLoop_snoc subStep_lastParent subStep_inSub)
qed

theorem C2_call_target_becomes_parent_witness:
  "labels (readLines (initState [] exampleFile) nestedDoc) = [2] @ 5 # [7] \<and>
   getLabel (heap (readLines (initState [] exampleFile) nestedDoc) ! 5)
     \<in> set (subroutines (readLines (initState [] exampleFile) nestedDoc)) \<and>
   lastParent (subLoop (readLines (initState [] exampleFile) nestedDoc) [2, 5]) = Some 5 \<and>
   getLabel (heap (readLines (initState [] exampleFile) nestedDoc) ! 7)
     \<notin> set (subroutines (readLines (initState [] exampleFile) nestedDoc)) \<and>
   lastParent (subLoop (readLines (initState [] exampleFile) nestedDoc) [2, 5, 7]) = Some 5 \<and>
   \<not> inSub (subLoop (readLines (initState [] exampleFile) nestedDoc) [2, 5, 7])"
proof -
  let ?st = "readLines (initState [] exampleFile) nestedDoc"
  have l1: "labels ?st = [2] @ 5 # [7]" and l2: "labels ?st = [2, 5] @ 7 # []"
    by (simp_all add: nestedDoc_run)
  have h: "getLabel (heap ?st ! 5) \<in> set (subroutines ?st)"
    "getLabel (heap ?st ! 7) \<notin> set (subroutines ?st)"
    by (simp_all add: nestedDoc_run)
  have a: "lastParent (subLoop ?st [2, 5]) = Some 5"
    using C2_call_target_becomes_parent [OF l1] h by simp
  have b: "lastParent (subLoop ?st [2, 5, 7]) = lastParent (subLoop ?st [2, 5])"
    "\<not> inSub (subLoop ?st [2, 5, 7])"
    using C2_call_target_becomes_parent [OF l2] h by (simp_all add: nestedDoc_run)
  from l1 h a b show ?thesis by simp
qed

text \<open>
  The document \<open>bsr P\<close>, \<open>P:\<close>, \<open>bsr.w Q\<close>, \<open>Q:\<close>, \<open>c:\<close>, \<open>rts\<close>: after the round
  for \<open>P\<close> the loop is inside the subroutine with parent \<open>P\<close>; the round for \<open>Q\<close> makes
  \<open>Q\<close> the parent, and \<open>c\<close> gets the parent \<open>Q\<close>.
\<close>

theorem C2_counterexample:
  "inSub (subLoop (readLines (initState [] exampleFile) nestedDoc) [2]) \<and>
   lastParent (subLoop (readLines (initState [] exampleFile) nestedDoc) [2]) = Some 2 \<and>
   lastParent (subLoop (readLines (initState [] exampleFile) nestedDoc) [2, 5]) = Some 5 \<and>
   labels (snd (readDocument [] exampleFile nestedDoc)) = [2, 5, 7] \<and>
   subroutines (snd (readDocument [] exampleFile nestedDoc)) = [''P'', ''Q''] \<and>
   map getLabel (symbolsOf (fst (readDocument [] exampleFile nestedDoc)) [2, 5, 7])
     = [''P'', ''Q'', ''c''] \<and>
   map getParent (symbolsOf (fst (readDocument [] exampleFile nestedDoc)) [2, 5, 7])
     = [''P'', ''Q'', ''Q''] \<and>
   lastParent (subLoop (readLines (initState [] exampleFile) nestedDoc) [2, 5])
     \<noteq> lastParent (subLoop (readLines (initState [] exampleFile) nestedDoc) [2])"
  by (simp add: sub_lines example_defs run_defs sub_defs)

text \<open>A reference that \<open>lastLabel\<close> holds is the label of a global label line.\<close>

lemma lastLabel_global:
  "lastLabel (readLines (initState h f) ls) = Some g \<Longrightarrow>
     \<exists>k < length (labels (readLines (initState h f) ls)).
        labels (readLines (initState h f) ls) ! k = g \<and>
        isGlobalLabelLine (filter isLabelLine ls ! k)"
proof (induction ls arbitrary: g rule: rev_induct)
  case Nil
  then show ?case by (simp add: readLines_Nil initState_simps)
next
  case (snoc x ls)
  let ?st = "readLines (initState h f) ls"
  have len: "length (labels ?st) = length (filter isLabelLine ls)"
    by (simp add: readLines_labels_length initState_simps)
  show ?case
  proof (cases "isGlobalLabelLine x")
    case True
    then have x: "isLabelLine x" by (simp add: isGlobalLabelLine_def)
    have "g = length (heap (readSymbols ?st x))"
      using snoc.prems True by (simp add: readLines_snoc readLine_lastLabel)
    then show ?thesis
      using True x len
      by (intro exI [of _ "length (labels ?st)"]) (simp add: readLines_snoc readLine_labels nth_append)
  next
    case False
    then have "lastLabel ?st = Some g"
      using snoc.prems by (simp add: readLines_snoc readLine_lastLabel)
    from snoc.IH [OF this] obtain k where
      k: "k < length (labels ?st)" "labels ?st ! k = g" "isGlobalLabelLine (filter isLabelLine ls ! k)"
      by blast
    then show ?thesis
      using len
      by (intro exI [of _ k]) (simp add: readLines_snoc readLine_labels nth_append)
  qed
qed

text \<open>A reference in \<open>labelsBeforeRts\<close> was \<open>lastLabel\<close> at a return line.\<close>

lemma labelsBeforeRts_origin:
  "r \<in> set (labelsBeforeRts (readLines (initState h f) ls)) \<Longrightarrow>
     \<exists>pre t post. ls = pre @ t # post \<and> isReturnLine t \<and>
        lastLabel (readLines (initState h f) (pre @ [t])) = Some r"
proof (induction ls rule: rev_induct)
  case Nil
  then show ?case by (simp add: readLines_Nil initState_simps)
next
  case (snoc x ls)
  let ?st = "readLines (initState h f) ls"
  show ?case
  proof (cases "r \<in> set (labelsBeforeRts ?st)")
    case True
    from snoc.IH [OF this] obtain pre t post where
      "ls = pre @ t # post" "isReturnLine t"
      "lastLabel (readLines (initState h f) (pre @ [t])) = Some r"
      by blast
    then show ?thesis
      by (intro exI [of _ pre] exI [of _ t] exI [of _ "post @ [x]"]) simp
  next
    case False
    then have "isReturnLine x \<and> lastLabel (readLine ?st x) = Some r"
      using snoc.prems
      by (auto simp: readLines_snoc readLine_labelsBeforeRts split: if_splits option.splits)
    then show ?thesis
      by (intro exI [of _ ls] exI [of _ x] exI [of _ "[]"]) (simp add: readLines_snoc)
  qed
qed

text \<open>
  Claim C10. When the round of the second loop for a label \<open>l\<close> ends the tracking (it
  was on before the round, or the round switched it on, and it is off after the round),
  then \<open>l\<close> is one of the objects of \<open>labelsBeforeRts\<close>, the line of \<open>l\<close> is a global
  label line (its label is not local), and \<open>l\<close> was \<open>lastLabel\<close> at a return line of the
  document. What a return line \<open>r\<close> adds to \<open>labelsBeforeRts\<close> is the object that
  \<open>lastLabel\<close> holds, if it holds one.
\<close>

theorem C10_tracking_ends_at_global_label:
  assumes "labels (readLines (initState h f) doc) = A @ l # C"
    and "inSub (subLoop (readLines (initState h f) doc) A) \<or>
         getLabel (heap (readLines (initState h f) doc) ! l)
           \<in> set (subroutines (readLines (initState h f) doc))"
    and "\<not> inSub (subLoop (readLines (initState h f) doc) (A @ [l]))"
  shows "l \<in> set (labelsBeforeRts (readLines (initState h f) doc)) \<and>
         isGlobalLabelLine (filter isLabelLine doc ! length A) \<and>
         (\<exists>pre t post. doc = pre @ t # post \<and> isReturnLine t \<and>
            lastLabel (readLines (initState h f) (pre @ [t])) = Some l) \<and>
         (isReturnLine r \<longrightarrow>
            labelsBeforeRts (readLines (initState h f) (ls @ [r])) =
              labelsBeforeRts (readLines (initState h f) ls) @
                (case lastLabel (readLines (initState h f) (ls @ [r])) of
                   None \<Rightarrow> []
                 | Some g \<Rightarrow> [g]))"
proof -
  let ?ini = "initState h f"
  let ?st = "readLines ?ini doc"
  have rec: "isReturnLine r \<longrightarrow>
      labelsBeforeRts (readLines ?ini (ls @ [r])) =
        labelsBeforeRts (readLines ?ini ls) @
          (case lastLabel (readLines ?ini (ls @ [r])) of None \<Rightarrow> [] | Some g \<Rightarrow> [g])"
    by (simp add: readLines_snoc readLine_labelsBeforeRts split: option.splits)
  have wf: "wellFormed ?st" by (rule wellFormed_reach)
  then have lt: "l < length (heap ?st)" and dist: "distinct (labels ?st)"
    unfolding wellFormed_def assms(1) by simp_all
  have gl: "getLabel (subHeap (subLoop ?st A) ! l) = getLabel (heap ?st ! l)"
    using lt by (rule subLoop_getLabel_nth)
  have mem: "l \<in> set (labelsBeforeRts ?st)"
    using assms(2,3) by (simp add: subLoop_snoc subStep_inSub gl)
  from labelsBeforeRts_origin [OF mem] obtain pre t post where
    doc: "doc = pre @ t # post" and t: "isReturnLine t"
    and ll: "lastLabel (readLines ?ini (pre @ [t])) = Some l"
    by blast
  let ?mid = "readLines ?ini (pre @ [t])"
  from lastLabel_global [OF ll] obtain k where
    k: "k < length (labels ?mid)" "labels ?mid ! k = l"
      "isGlobalLabelLine (filter isLabelLine (pre @ [t]) ! k)"
    by blast
  have st: "?st = readLines ?mid post" by (simp add: doc readLines_append readLines_Cons readLines_Nil)
  have pre: "prefix (labels ?mid) (labels ?st)"
    unfolding st by (rule readLines_labels_prefix)
  have k1: "labels ?st ! k = l" using prefix_nth [OF pre k(1)] k(2) by simp
  have k2: "k < length (labels ?st)" using k(1) prefix_length_le [OF pre] by simp
  have "labels ?st ! length A = l" "length A < length (labels ?st)"
    unfolding assms(1) by simp_all
  then have kA: "k = length A"
    using nth_eq_iff_index_eq [OF dist k2, of "length A"] k1 by simp
  obtain F where F: "F = filter isLabelLine (pre @ [t])" by blast
  have len: "length (labels ?mid) = length F"
    unfolding F by (simp add: readLines_labels_length initState_simps)
  have "filter isLabelLine doc = F @ filter isLabelLine post" unfolding F doc by simp
  then have "filter isLabelLine doc ! k = F ! k" using k(1) len by (simp add: nth_append)
  moreover have "isGlobalLabelLine (F ! k)" unfolding F by (rule k(3))
  ultimately have "isGlobalLabelLine (filter isLabelLine doc ! length A)"
    using kA by simp
  with mem doc t ll rec show ?thesis by blast
qed

theorem C10_tracking_ends_at_global_label_witness:
  "labels (readLines (initState [] exampleFile) shortDoc) = [] @ 2 # [4, 7] \<and>
   getLabel (heap (readLines (initState [] exampleFile) shortDoc) ! 2)
     \<in> set (subroutines (readLines (initState [] exampleFile) shortDoc)) \<and>
   \<not> inSub (subLoop (readLines (initState [] exampleFile) shortDoc) ([] @ [2])) \<and>
   2 \<in> set (labelsBeforeRts (readLines (initState [] exampleFile) shortDoc)) \<and>
   isGlobalLabelLine (filter isLabelLine shortDoc ! 0) \<and>
   (\<exists>pre t post. shortDoc = pre @ t # post \<and> isReturnLine t \<and>
      lastLabel (readLines (initState [] exampleFile) (pre @ [t])) = Some 2) \<and>
   isReturnLine rtsLine \<and>
   labelsBeforeRts (readLines (initState [] exampleFile) ([callP, labelP, localC] @ [rtsLine])) =
     labelsBeforeRts (readLines (initState [] exampleFile) [callP, labelP, localC]) @ [2]"
proof -
  let ?st = "readLines (initState [] exampleFile) shortDoc"
  have h1: "labels ?st = [] @ 2 # [4, 7]" by (simp add: shortDoc_run)
  have h2: "inSub (subLoop ?st []) \<or> getLabel (heap ?st ! 2) \<in> set (subroutines ?st)"
    by (simp add: shortDoc_run)
  have h3: "\<not> inSub (subLoop ?st ([] @ [2]))"
    by (simp add: subLoop_def subStep_def Let_def shortDoc_run)
  have h4: "isReturnLine rtsLine"
    by (simp add: sub_lines example_defs line_test_defs)
  have e: "lastLabel (readLines (initState [] exampleFile) ([callP, labelP, localC] @ [rtsLine]))
      = Some 2"
    by (simp add: sub_lines example_defs run_defs)
  from C10_tracking_ends_at_global_label
    [OF h1 h2 h3, where r = rtsLine and ls = "[callP, labelP, localC]"] h1 h3 h4
  show ?thesis
    unfolding e by (simp add: shortDoc_run)
qed

section \<open>Reading a document again\<close>

lemma relocate_fields:
  "uri (relocate h st) = uri st"
  "heap (relocate h st) = h @ heap st"
  "lastLabel (relocate h st) = map_option ((+) (length h)) (lastLabel st)"
  by (simp_all add: relocate_def)

lemma newSymbol_relocate:
  "newSymbol lbl rng v (relocate h st) =
     (length h + fst (newSymbol lbl rng v st), relocate h (snd (newSymbol lbl rng v st)))"
  by (simp add: newSymbol_def relocate_def)

lemma relocate_push:
  "(relocate h st)\<lparr> referredSymbols := referredSymbols (relocate h st) @ [length h + s] \<rparr> =
     relocate h (st\<lparr> referredSymbols := referredSymbols st @ [s] \<rparr>)"
  by (simp add: relocate_def)

lemma pushReferred_relocate:
  "pushReferred (relocate h st) rs = relocate h (pushReferred st rs)"
proof (induction st rs rule: pushReferred.induct)
  case (2 st symbol rng results)
  show ?case
    using 2 [of "(fst (newSymbol symbol rng None st), snd (newSymbol symbol rng None st))"
        "fst (newSymbol symbol rng None st)" "snd (newSymbol symbol rng None st)"]
    by (simp add: newSymbol_relocate split_beta relocate_push)
qed simp_all

lemma readSymbols_relocate:
  "readSymbols (relocate h st) l = relocate h (readSymbols st l)"
  by (simp add: readSymbols_def newSymbol_relocate pushReferred_relocate Let_def split_beta
      split: prod.splits option.splits)
     (simp_all add: relocate_def)

lemma readLabel_relocate:
  "readLabel (relocate h st) l i = relocate h (readLabel st l i)"
proof -
  have t: "(case lastLabel (relocate h st) of None \<Rightarrow> ''undefined''
            | Some g \<Rightarrow> getLabel (heap (relocate h st) ! g)) =
           (case lastLabel st of None \<Rightarrow> ''undefined'' | Some g \<Rightarrow> getLabel (heap st ! g))"
    by (simp add: relocate_fields split: option.splits)
  show ?thesis
    unfolding readLabel_def Let_def t newSymbol_relocate split_beta fst_conv snd_conv
    by (simp add: relocate_def newSymbol_def)
qed

lemma readVariable_relocate:
  "readVariable (relocate h st) l = relocate h (readVariable st l)"
  unfolding readVariable_def Let_def newSymbol_relocate split_beta fst_conv snd_conv
  by (simp add: relocate_def newSymbol_def)

lemma readInstruction_relocate:
  "readInstruction (relocate h st) l i = relocate h (readInstruction st l i)"
  unfolding readInstruction_def Let_def newSymbol_relocate split_beta fst_conv snd_conv
  by (simp add: relocate_def newSymbol_def split: option.splits)

lemma readLine_relocate: "readLine (relocate h st) l = relocate h (readLine st l)"
  by (simp add: readLine_def Let_def readSymbols_relocate readLabel_relocate
      readVariable_relocate readInstruction_relocate)

lemma readLines_relocate: "readLines (relocate h st) ls = relocate h (readLines st ls)"
  by (induction ls arbitrary: st) (simp_all add: readLines_Nil readLines_Cons readLine_relocate)

lemma initState_relocate: "initState h f = relocate h (initState [] f)"
  by (simp add: initState_def relocate_def clear_def SymbolFile.defs ReadState.defs)

lemma initState_clear: "initState h (clear f) = initState h f"
  by (simp add: initState_def clear_def SymbolFile.defs ReadState.defs)

text \<open>The second loop on relocated references.\<close>

lemma arrayIndexOf_relocate:
  "(arrayIndexOf (map ((+) n) xs) (n + x) \<ge> 0) = (arrayIndexOf xs (x::nat) \<ge> 0)"
  by (auto simp: arrayIndexOf_ge0)

lemma subStep_relocate:
  "subStep subs (map ((+) (length h)) lbr) (relocateSub h s) (length h + l) =
     relocateSub h (subStep subs lbr s l)"
  by (simp add: subStep_def Let_def relocateSub_def arrayIndexOf_relocate list_update_append
      split: option.splits)

lemma subRounds_relocate:
  "foldl (subStep subs (map ((+) (length h)) lbr)) (relocateSub h s) (map ((+) (length h)) ls) =
     relocateSub h (foldl (subStep subs lbr) s ls)"
  by (induction ls arbitrary: s) (simp_all add: subStep_relocate)

lemma inferSubroutines_relocate:
  "inferSubroutines (relocate h st) = relocateSub h (inferSubroutines st)"
proof -
  have "\<lparr> subHeap = heap (relocate h st), inSub = False, lastParent = None \<rparr> =
      relocateSub h \<lparr> subHeap = heap st, inSub = False, lastParent = None \<rparr>"
    by (simp add: relocateSub_def relocate_def)
  moreover have "subroutines (relocate h st) = subroutines st"
    "labelsBeforeRts (relocate h st) = map ((+) (length h)) (labelsBeforeRts st)"
    "labels (relocate h st) = map ((+) (length h)) (labels st)"
    by (simp_all add: relocate_def)
  ultimately show ?thesis
    by (simp add: inferSubroutines_def subLoop_def subRounds_relocate)
qed

text \<open>
  A call of \<open>readDocument\<close> on any store and any earlier contents of the object does what
  the call on the empty store does, with its references moved behind the store.
\<close>

lemma readDocument_relocate:
  "fst (readDocument h f doc) = h @ fst (readDocument [] f doc)"
  "labels (snd (readDocument h f doc)) = map ((+) (length h)) (labels (snd (readDocument [] f doc)))"
  "variables (snd (readDocument h f doc)) = map ((+) (length h)) (variables (snd (readDocument [] f doc)))"
  "macros (snd (readDocument h f doc)) = map ((+) (length h)) (macros (snd (readDocument [] f doc)))"
  "uri (snd (readDocument h f doc)) = uri f"
proof -
  have r: "readLines (initState h f) doc = relocate h (readLines (initState [] f) doc)"
    using readLines_relocate [of h "initState [] f" doc] initState_relocate [of h f] by simp
  show "fst (readDocument h f doc) = h @ fst (readDocument [] f doc)"
    by (simp add: readDocument_def Let_def r inferSubroutines_relocate relocateSub_def)
  show "labels (snd (readDocument h f doc)) = map ((+) (length h)) (labels (snd (readDocument [] f doc)))"
    "variables (snd (readDocument h f doc)) = map ((+) (length h)) (variables (snd (readDocument [] f doc)))"
    "macros (snd (readDocument h f doc)) = map ((+) (length h)) (macros (snd (readDocument [] f doc)))"
    by (simp_all add: readDocument_def Let_def r truncate_simps relocate_def)
  show "uri (snd (readDocument h f doc)) = uri f"
    by (simp add: readDocument_def Let_def truncate_simps readLines_uri initState_simps)
qed

lemma symbolsOf_relocate: "symbolsOf (h @ h') (map ((+) (length h)) refs) = symbolsOf h' refs"
  by (simp add: symbolsOf_def)

lemma readDocument_uri_only:
  "uri f = uri f' \<Longrightarrow> readDocument h f doc = readDocument h f' doc"
proof -
  assume "uri f = uri f'"
  then have "initState h f = initState h f'"
    by (simp add: initState_def clear_def SymbolFile.defs ReadState.defs)
  then show ?thesis by (simp add: readDocument_def)
qed

text \<open>
  Claim C5. A second call of \<open>readDocument\<close> on the same document, on the store and the
  object that the first call has left, yields \<open>labels\<close>, \<open>variables\<close> and \<open>macros\<close> that hold
  symbols equal in content to those of the first call (the objects are new ones). A call
  starts from the cleared object: it yields what it yields on \<open>clear f\<close>.
\<close>

theorem C5_readDocument_idempotent:
  "symbolsOf (fst (readDocument (fst (readDocument h f doc)) (snd (readDocument h f doc)) doc))
     (labels (snd (readDocument (fst (readDocument h f doc)) (snd (readDocument h f doc)) doc)))
     = symbolsOf (fst (readDocument h f doc)) (labels (snd (readDocument h f doc))) \<and>
   symbolsOf (fst (readDocument (fst (readDocument h f doc)) (snd (readDocument h f doc)) doc))
     (variables (snd (readDocument (fst (readDocument h f doc)) (snd (readDocument h f doc)) doc)))
     = symbolsOf (fst (readDocument h f doc)) (variables (snd (readDocument h f doc))) \<and>
   symbolsOf (fst (readDocument (fst (readDocument h f doc)) (snd (readDocument h f doc)) doc))
     (macros (snd (readDocument (fst (readDocument h f doc)) (snd (readDocument h f doc)) doc)))
     = symbolsOf (fst (readDocument h f doc)) (macros (snd (readDocument h f doc))) \<and>
   readDocument h f doc = readDocument h (clear f) doc"
proof -
  let ?r1 = "readDocument h f doc"
  let ?r2 = "readDocument (fst ?r1) (snd ?r1) doc"
  let ?r0 = "readDocument [] f doc"
  have u: "uri (snd ?r1) = uri f" by (rule readDocument_relocate(5))
  have r20: "readDocument [] (snd ?r1) doc = ?r0"
    using u by (rule readDocument_uri_only)
  have a: "symbolsOf (fst ?r1) (labels (snd ?r1)) = symbolsOf (fst ?r0) (labels (snd ?r0))"
    "symbolsOf (fst ?r1) (variables (snd ?r1)) = symbolsOf (fst ?r0) (variables (snd ?r0))"
    "symbolsOf (fst ?r1) (macros (snd ?r1)) = symbolsOf (fst ?r0) (macros (snd ?r0))"
    by (simp_all add: readDocument_relocate(1-4) [of h f doc] symbolsOf_relocate)
  have b: "symbolsOf (fst ?r2) (labels (snd ?r2)) = symbolsOf (fst ?r0) (labels (snd ?r0))"
    "symbolsOf (fst ?r2) (variables (snd ?r2)) = symbolsOf (fst ?r0) (variables (snd ?r0))"
    "symbolsOf (fst ?r2) (macros (snd ?r2)) = symbolsOf (fst ?r0) (macros (snd ?r0))"
    by (simp_all add: readDocument_relocate(1-4) [of "fst ?r1" "snd ?r1" doc] r20 symbolsOf_relocate)
  have c: "readDocument h f doc = readDocument h (clear f) doc"
    by (rule readDocument_uri_only) (simp add: clear_def)
  from a b c show ?thesis by simp
qed

section \<open>Looking up a local label\<close>








end
